theory Spec2Isabelle
  imports Complex_Main "HOL-Library.Word" "HOL-Library.Char_ord" "HOL-Library.List_Lexorder"
begin

unbundle bit_operations_syntax

section \<open>Data model\<close>

text \<open>
  Keys are modelled at the default instantiation \<open>K = string\<close> of the generic classes, so
  that \<open>String(key)\<close> is the identity; \<open><\<close> on strings is the lexicographic order of
  the character codes, as JavaScript's. A value is a JavaScript value of the kinds the
  commands inspect: \<open>null\<close>, a boolean, a number or a string. An optional argument or
  field (\<open>ttl?: number\<close>) is an \<open>option\<close>, \<open>None\<close> standing for \<open>undefined\<close>.
  Every operation takes the reading of \<open>Date.now()\<close> as an argument \<open>now\<close>; the
  readings taken inside one call are the same instant.
\<close>

datatype jsval = VNull | VBool bool | VNum int | VStr string

text \<open>\<open>ToBoolean\<close>, the operator \<open>!\<close> and strict equality \<open>===\<close> on these values.\<close>

fun js_truthy :: "jsval \<Rightarrow> bool" where
  "js_truthy VNull = False"
| "js_truthy (VBool b) = b"
| "js_truthy (VNum n) = (n \<noteq> 0)"
| "js_truthy (VStr s) = (s \<noteq> [])"

definition js_not :: "jsval \<Rightarrow> jsval" where
  "js_not v = VBool (\<not> js_truthy v)"

definition strict_eq :: "jsval \<Rightarrow> jsval \<Rightarrow> bool" where
  "strict_eq a b = (a = b)"

text \<open>\<open>interface StorageEntry\<close> of \<open>src/types/index.ts\<close>.\<close>

record StorageEntry =
  key :: string
  val :: jsval
  timestamp :: int
  ttl :: "int option"
  version :: int

text \<open>
  A JavaScript \<open>Map\<close> keeps its keys in insertion order, and \<open>set\<close> on a key that is
  present replaces the value in place: an association list with distinct keys.
\<close>

type_synonym ('k, 'v) jsmap = "('k \<times> 'v) list"

definition Map_get :: "('k, 'v) jsmap \<Rightarrow> 'k \<Rightarrow> 'v option" where
  "Map_get m k = map_of m k"

definition Map_has :: "('k, 'v) jsmap \<Rightarrow> 'k \<Rightarrow> bool" where
  "Map_has m k = (map_of m k \<noteq> None)"

fun Map_set :: "('k, 'v) jsmap \<Rightarrow> 'k \<Rightarrow> 'v \<Rightarrow> ('k, 'v) jsmap" where
  "Map_set [] k v = [(k, v)]"
| "Map_set ((k', v') # m) k v = (if k' = k then (k, v) # m else (k', v') # Map_set m k v)"

definition Map_delete :: "('k, 'v) jsmap \<Rightarrow> 'k \<Rightarrow> ('k, 'v) jsmap" where
  "Map_delete m k = filter (\<lambda>p. fst p \<noteq> k) m"

definition Map_size :: "('k, 'v) jsmap \<Rightarrow> nat" where
  "Map_size m = length m"

text \<open>A JavaScript \<open>Set\<close>: insertion order, no duplicates.\<close>

definition Set_add :: "'a list \<Rightarrow> 'a \<Rightarrow> 'a list" where
  "Set_add xs x = (if x \<in> set xs then xs else xs @ [x])"

text \<open>
  Truthiness of an optional number, as in \<open>ttl ? a : b\<close> and \<open>entry.ttl && \<dots>\<close>:
  \<open>undefined\<close> and \<open>0\<close> are falsy. The result is the number when it is truthy.
\<close>

definition truthy :: "int option \<Rightarrow> int option" where
  "truthy n = (case n of None \<Rightarrow> None | Some t \<Rightarrow> if t = 0 then None else Some t)"

text \<open>The test \<open>entry.ttl && entry.ttl < now\<close> that every reader of an entry makes.\<close>

definition expired :: "int \<Rightarrow> StorageEntry \<Rightarrow> bool" where
  "expired now e = (case truthy (ttl e) of Some t \<Rightarrow> t < now | None \<Rightarrow> False)"

text \<open>\<open>Math.ceil(remaining / 1000)\<close> on an integer number of milliseconds.\<close>

definition ceil_seconds :: "int \<Rightarrow> int" where
  "ceil_seconds remaining = - ((- remaining) div 1000)"

datatype error = ValidationError | StorageError

text \<open>
  What the code takes from its host and the model takes as parameters: the byte length
  of \<open>JSON.stringify\<close> of a key or a value (\<open>calculateSize\<close> of
  \<open>src/utils/serializer.ts\<close> with the default serializer) and of an entry
  (\<open>calculateSize(entry, serializer)\<close>), the configured serializer applied to a key, and
  \<open>String.prototype.localeCompare\<close>.
\<close>

record host =
  byteLength :: "jsval \<Rightarrow> int"
  entryByteLength :: "StorageEntry \<Rightarrow> int"
  serializeKey :: "string \<Rightarrow> string"
  localeCompare :: "string \<Rightarrow> string \<Rightarrow> int"

text \<open>
  \<open>Array.prototype.sort\<close> with a comparator is stable; \<open>sort_by\<close> is the stable
  insertion sort.
\<close>

fun insert_by :: "('a \<Rightarrow> 'a \<Rightarrow> int) \<Rightarrow> 'a \<Rightarrow> 'a list \<Rightarrow> 'a list" where
  "insert_by cmp x [] = [x]"
| "insert_by cmp x (y # ys) = (if cmp x y \<le> 0 then x # y # ys else y # insert_by cmp x ys)"

definition sort_by :: "('a \<Rightarrow> 'a \<Rightarrow> int) \<Rightarrow> 'a list \<Rightarrow> 'a list" where
  "sort_by cmp xs = foldr (insert_by cmp) xs []"

section \<open>RegExp\<close>

text \<open>
  The regular expressions the code builds from a key pattern, and \<open>RegExp.prototype.test\<close>
  on them. The source text of such an expression is made of plain characters, escaped
  syntax characters (\<open>\.\<close>), the dot, the star after a character or a dot, \<open>^\<close> and
  \<open>$\<close>. \<open>RegExp\<close> is the constructor on this fragment: \<open>None\<close> is a \<open>SyntaxError\<close>
  (a star with nothing to repeat, a lone backslash) or a construct outside the fragment
  (\<open>+ ? ( ) [ ] { } |\<close> unescaped, a class escape such as \<open>\d\<close>). Without flags the dot
  matches any character but a line terminator, \<open>^\<close> and \<open>$\<close> match at the two ends of
  the input, and \<open>test\<close> looks for a match starting at any position. Characters are the
  code units below 256.
\<close>

definition backslash :: char where
  "backslash = CHR 0x5C"

datatype atom = Lit char | AnyChar | Bol | Eol

datatype piece = Once atom | Star atom

datatype token = TChar char | TDot | TStar | TBol | TEol

definition syntax_char :: "char \<Rightarrow> bool" where
  "syntax_char c = (c \<in> set ''^$.*+?()[]{}|/'' \<or> c = backslash)"

definition token_of :: "char \<Rightarrow> token option" where
  "token_of c =
     (if c = CHR ''.'' then Some TDot
      else if c = CHR ''*'' then Some TStar
      else if c = CHR ''^'' then Some TBol
      else if c = CHR ''$'' then Some TEol
      else if c \<in> set ''+?()[]{}|'' then None
      else Some (TChar c))"

fun tokenize :: "string \<Rightarrow> token list option" where
  "tokenize [] = Some []"
| "tokenize [c] = (if c = backslash then None else map_option (\<lambda>t. [t]) (token_of c))"
| "tokenize (c # d # cs) =
     (if c = backslash
      then (if syntax_char d then map_option (Cons (TChar d)) (tokenize cs) else None)
      else (case token_of c of
              None \<Rightarrow> None
            | Some t \<Rightarrow> map_option (Cons t) (tokenize (d # cs))))"

fun atom_of :: "token \<Rightarrow> atom option" where
  "atom_of (TChar c) = Some (Lit c)"
| "atom_of TDot = Some AnyChar"
| "atom_of TBol = Some Bol"
| "atom_of TEol = Some Eol"
| "atom_of TStar = None"

fun quantifiable :: "atom \<Rightarrow> bool" where
  "quantifiable (Lit c) = True"
| "quantifiable AnyChar = True"
| "quantifiable Bol = False"
| "quantifiable Eol = False"

fun pieces :: "token list \<Rightarrow> piece list option" where
  "pieces [] = Some []"
| "pieces [t] = map_option (\<lambda>a. [Once a]) (atom_of t)"
| "pieces (t # u # ts) =
     (case atom_of t of
        None \<Rightarrow> None
      | Some a \<Rightarrow>
          if u = TStar
          then (if quantifiable a then map_option (Cons (Star a)) (pieces ts) else None)
          else map_option (Cons (Once a)) (pieces (u # ts)))"

definition RegExp :: "string \<Rightarrow> piece list option" where
  "RegExp src = (case tokenize src of None \<Rightarrow> None | Some ts \<Rightarrow> pieces ts)"

definition line_terminator :: "char \<Rightarrow> bool" where
  "line_terminator c = (c = CHR 0x0A \<or> c = CHR 0x0D)"

fun atom_matches :: "atom \<Rightarrow> char \<Rightarrow> bool" where
  "atom_matches (Lit c) x = (x = c)"
| "atom_matches AnyChar x = (\<not> line_terminator x)"
| "atom_matches Bol x = False"
| "atom_matches Eol x = False"

text \<open>
  \<open>match_here re at_start s\<close>: the expression matches a prefix of the rest \<open>s\<close> of the
  input; \<open>at_start\<close> tells whether \<open>s\<close> is the whole input.
\<close>

fun match_here :: "piece list \<Rightarrow> bool \<Rightarrow> string \<Rightarrow> bool" where
  "match_here [] at_start s = True"
| "match_here (Once Bol # r) at_start s = (at_start \<and> match_here r at_start s)"
| "match_here (Once Eol # r) at_start s = (s = [] \<and> match_here r at_start s)"
| "match_here (Once a # r) at_start [] = False"
| "match_here (Once a # r) at_start (x # xs) = (atom_matches a x \<and> match_here r False xs)"
| "match_here (Star a # r) at_start [] = match_here r at_start []"
| "match_here (Star a # r) at_start (x # xs) =
     (match_here r at_start (x # xs) \<or> (atom_matches a x \<and> match_here (Star a # r) False xs))"

fun test_from :: "piece list \<Rightarrow> bool \<Rightarrow> string \<Rightarrow> bool" where
  "test_from re at_start [] = match_here re at_start []"
| "test_from re at_start (x # xs) = (match_here re at_start (x # xs) \<or> test_from re False xs)"

definition RegExp_test :: "piece list \<Rightarrow> string \<Rightarrow> bool" where
  "RegExp_test re s = test_from re True s"

text \<open>
  The three global replacements of the source: \<open>.replace(/[.+^${}()|[\]\\]/g, '\\$&')\<close>,
  \<open>.replace(/\*/g, '.*')\<close> and \<open>.replace(/\?/g, '.')\<close>.
\<close>

definition escape_special :: "string \<Rightarrow> string" where
  "escape_special p =
     concat (map (\<lambda>c. if c \<in> set ''.+^${}()|[]'' \<or> c = backslash then [backslash, c] else [c]) p)"

definition replace_star :: "string \<Rightarrow> string" where
  "replace_star p = concat (map (\<lambda>c. if c = CHR ''*'' then ''.*'' else [c]) p)"

definition replace_question :: "string \<Rightarrow> string" where
  "replace_question p = concat (map (\<lambda>c. if c = CHR ''?'' then ''.'' else [c]) p)"

text \<open>\<open>patternToRegex\<close>, the same private method in \<open>Memtable\<close> and in \<open>SSTable\<close>.\<close>

definition patternToRegex :: "string \<Rightarrow> piece list option" where
  "patternToRegex p =
     RegExp (''^'' @ replace_question (replace_star (escape_special p)) @ ''$'')"

text \<open>
  \<open>pattern ? build(pattern) : null\<close>: no expression for an absent or empty pattern. The
  outer \<open>None\<close> is the exception of the constructor.
\<close>

definition regex_for ::
  "(string \<Rightarrow> piece list option) \<Rightarrow> string option \<Rightarrow> piece list option option" where
  "regex_for build pattern =
     (case pattern of
        None \<Rightarrow> Some None
      | Some p \<Rightarrow> if p = [] then Some None else map_option Some (build p))"

text \<open>\<open>!regex || regex.test(keyStr)\<close>.\<close>

definition key_matches :: "piece list option \<Rightarrow> string \<Rightarrow> bool" where
  "key_matches regex keyStr = (case regex of None \<Rightarrow> True | Some r \<Rightarrow> RegExp_test r keyStr)"

text \<open>
  The matcher that section 4.7 of the specification words: anchored at both ends, \<open>*\<close>
  for any run of characters the dot matches, \<open>?\<close> for one such character, every other
  character for itself.
\<close>

fun glob_match :: "string \<Rightarrow> string \<Rightarrow> bool" where
  "glob_match [] k = (k = [])"
| "glob_match (c # p) [] = (c = CHR ''*'' \<and> glob_match p [])"
| "glob_match (c # p) (x # xs) =
     (if c = CHR ''*''
      then glob_match p (x # xs) \<or> (\<not> line_terminator x \<and> glob_match (c # p) xs)
      else if c = CHR ''?'' then \<not> line_terminator x \<and> glob_match p xs
      else x = c \<and> glob_match p xs)"

section \<open>BloomFilter\<close>

text \<open>
  \<open>class BloomFilter\<close> of \<open>src/worker/storage/BloomFilter.ts\<close>. \<open>bits\<close> is the
  \<open>Uint8Array\<close>; \<open>bsize\<close> is the field \<open>size\<close>, the number of bits.
\<close>

record BloomFilter =
  bits :: "8 word list"
  bsize :: nat
  numHashes :: nat

definition BloomFilter_new :: "nat \<Rightarrow> nat \<Rightarrow> BloomFilter" where
  "BloomFilter_new m k = \<lparr>bits = replicate ((m + 7) div 8) 0, bsize = m, numHashes = k\<rparr>"

text \<open>
  \<open>hash\<close>: each round computes \<open>((hash << 5) - hash) + char\<close> and \<open>hash & hash\<close>
  brings the result back to a signed 32-bit integer; \<open>Math.abs\<close> is taken at the end.
\<close>

definition hash_step :: "32 word \<Rightarrow> char \<Rightarrow> 32 word" where
  "hash_step h c = (push_bit 5 h - h) + of_nat (of_char c)"

definition hash :: "string \<Rightarrow> int" where
  "hash str = \<bar>sint (foldl hash_step 0 str)\<bar>"

definition getHashes :: "BloomFilter \<Rightarrow> string \<Rightarrow> int list" where
  "getHashes f k =
     (let hash1 = hash k; hash2 = hash (k @ ''salt'')
      in map (\<lambda>i. \<bar>hash1 + int i * hash2\<bar>) [0..<numHashes f])"

text \<open>
  \<open>index = hash % size\<close>, \<open>byteIndex = Math.floor(index / 8)\<close>, \<open>bitIndex = index % 8\<close>.
  With \<open>size = 0\<close> the index is \<open>NaN\<close> (\<open>None\<close>): a typed array ignores a write at
  \<open>NaN\<close> and reads \<open>undefined\<close> there, and \<open>undefined & mask\<close> is \<open>0\<close>. The same holds
  at a byte index past the end of the array.
\<close>

definition bit_position :: "nat \<Rightarrow> int \<Rightarrow> (nat \<times> nat) option" where
  "bit_position m h =
     (if m = 0 then None
      else (let index = nat (h mod int m) in Some (index div 8, index mod 8)))"

definition set_bit_at :: "8 word list \<Rightarrow> (nat \<times> nat) option \<Rightarrow> 8 word list" where
  "set_bit_at bs pos =
     (case pos of
        None \<Rightarrow> bs
      | Some (byteIndex, bitIndex) \<Rightarrow>
          if byteIndex < length bs
          then bs[byteIndex := (bs ! byteIndex) OR push_bit bitIndex 1]
          else bs)"

definition test_bit_at :: "8 word list \<Rightarrow> (nat \<times> nat) option \<Rightarrow> bool" where
  "test_bit_at bs pos =
     (case pos of
        None \<Rightarrow> False
      | Some (byteIndex, bitIndex) \<Rightarrow>
          byteIndex < length bs \<and> (bs ! byteIndex) AND push_bit bitIndex 1 \<noteq> 0)"

definition BloomFilter_add :: "BloomFilter \<Rightarrow> string \<Rightarrow> BloomFilter" where
  "BloomFilter_add f k =
     f\<lparr>bits := foldl set_bit_at (bits f) (map (bit_position (bsize f)) (getHashes f k))\<rparr>"

definition BloomFilter_contains :: "BloomFilter \<Rightarrow> string \<Rightarrow> bool" where
  "BloomFilter_contains f k =
     list_all (test_bit_at (bits f)) (map (bit_position (bsize f)) (getHashes f k))"

text \<open>The filters the constructor builds: a positive number of bits and the array that holds them.\<close>

definition BloomFilter_wf :: "BloomFilter \<Rightarrow> bool" where
  "BloomFilter_wf f = (0 < bsize f \<and> length (bits f) = (bsize f + 7) div 8)"

section \<open>SSTable\<close>

text \<open>
  \<open>class SSTable\<close> of \<open>src/worker/storage/SSTable.ts\<close>. The identifier
  \<open>sstable_${Date.now()}_${index}\<close> is kept as the pair of its two numbers. The metadata
  record is \<open>SSTableMetadata\<close> of \<open>src/types/index.ts\<close>, its fields prefixed with \<open>md_\<close>.
\<close>

record StorageEngineConfig =
  maxMemtableSizeMB :: int
  compactionIntervalMs :: int
  enableBloomFilter :: bool

record SSTableMetadata =
  md_id :: "int \<times> nat"
  md_level :: nat
  md_minKey :: string
  md_maxKey :: string
  md_size :: int
  md_entries :: nat
  md_createdAt :: int
  md_bloomFilter :: "BloomFilter option"

record SSTable =
  table_id :: "int \<times> nat"
  level :: nat
  entries :: "StorageEntry list"
  bloomFilter :: "BloomFilter option"
  metadata :: SSTableMetadata

definition calculateMetadata ::
  "host \<Rightarrow> int \<Rightarrow> int \<times> nat \<Rightarrow> nat \<Rightarrow> StorageEntry list \<Rightarrow> BloomFilter option
     \<Rightarrow> SSTableMetadata" where
  "calculateMetadata h now ident lvl es bf =
     \<lparr>md_id = ident, md_level = lvl,
      md_minKey = (if length es > 0 then key (es ! 0) else []),
      md_maxKey = (if length es > 0 then key (es ! (length es - 1)) else []),
      md_size = (if length es > 0 then foldl (\<lambda>totalSize e. totalSize + entryByteLength h e) 0 es
                 else 0),
      md_entries = length es, md_createdAt = now, md_bloomFilter = bf\<rparr>"

definition SSTable_new ::
  "host \<Rightarrow> int \<Rightarrow> nat \<Rightarrow> nat \<Rightarrow> StorageEntry list \<Rightarrow> StorageEngineConfig \<Rightarrow> SSTable" where
  "SSTable_new h now index lvl es cfg =
     (let bf = (if enableBloomFilter cfg \<and> length es > 0
                then Some (foldl BloomFilter_add (BloomFilter_new (length es * 10) 3)
                             (map (\<lambda>e. serializeKey h (key e)) es))
                else None)
      in \<lparr>table_id = (now, index), level = lvl, entries = es, bloomFilter = bf,
          metadata = calculateMetadata h now (now, index) lvl es bf\<rparr>)"

text \<open>
  \<open>binarySearch\<close>: the loop on \<open>left\<close> and \<open>right\<close>. From the initial call
  \<open>0 \<le> left\<close> and \<open>right < length\<close> hold at every read of \<open>entries[mid]\<close>.
\<close>

function binarySearch_loop ::
  "StorageEntry list \<Rightarrow> string \<Rightarrow> int \<Rightarrow> int \<Rightarrow> StorageEntry option" where
  "binarySearch_loop es targetKey left right =
     (if left \<le> right
      then (if key (es ! nat ((left + right) div 2)) = targetKey
            then Some (es ! nat ((left + right) div 2))
            else if key (es ! nat ((left + right) div 2)) < targetKey
            then binarySearch_loop es targetKey ((left + right) div 2 + 1) right
            else binarySearch_loop es targetKey left ((left + right) div 2 - 1))
      else None)"
  by pat_completeness auto
termination
  by (relation "measure (\<lambda>(es, targetKey, left, right). nat (right - left + 1))") auto

definition binarySearch :: "StorageEntry list \<Rightarrow> string \<Rightarrow> StorageEntry option" where
  "binarySearch es k = binarySearch_loop es k 0 (int (length es) - 1)"

text \<open>\<open>get\<close> returns \<open>undefined\<close> (\<open>None\<close>) for a miss and the stored value, \<open>null\<close> included, for a hit.\<close>

definition SSTable_get :: "host \<Rightarrow> int \<Rightarrow> string \<Rightarrow> SSTable \<Rightarrow> jsval option" where
  "SSTable_get h now k t =
     (let serializedKey = serializeKey h k
      in if (case bloomFilter t of Some bf \<Rightarrow> \<not> BloomFilter_contains bf serializedKey
                                  | None \<Rightarrow> False)
         then None
         else case binarySearch (entries t) k of
                None \<Rightarrow> None
              | Some entry \<Rightarrow> if expired now entry then None else Some (val entry))"

definition SSTable_getEntry :: "int \<Rightarrow> string \<Rightarrow> SSTable \<Rightarrow> StorageEntry option" where
  "SSTable_getEntry now k t =
     (case binarySearch (entries t) k of
        None \<Rightarrow> None
      | Some entry \<Rightarrow> if expired now entry then None else Some entry)"

definition SSTable_keys :: "int \<Rightarrow> string option \<Rightarrow> SSTable \<Rightarrow> string list option" where
  "SSTable_keys now pattern t =
     (case regex_for patternToRegex pattern of
        None \<Rightarrow> None
      | Some regex \<Rightarrow>
          Some (map key (filter (\<lambda>entry. \<not> expired now entry \<and> val entry \<noteq> VNull
                                   \<and> key_matches regex (key entry)) (entries t))))"

definition SSTable_overlaps :: "SSTable \<Rightarrow> SSTable \<Rightarrow> bool" where
  "SSTable_overlaps t other =
     (\<not> (md_maxKey (metadata t) < md_minKey (metadata other)
         \<or> md_minKey (metadata t) > md_maxKey (metadata other)))"

section \<open>Memtable\<close>

text \<open>
  \<open>class Memtable\<close> of \<open>src/worker/storage/Memtable.ts\<close>; \<open>mt_data\<close> is its field
  \<open>data\<close>.
\<close>

record Memtable =
  mt_data :: "(string, StorageEntry) jsmap"
  sizeBytes :: int
  maxSizeBytes :: int

definition Memtable_new :: "int \<Rightarrow> Memtable" where
  "Memtable_new maxSizeMB = \<lparr>mt_data = [], sizeBytes = 0, maxSizeBytes = maxSizeMB * 1024 * 1024\<rparr>"

definition calculateEntrySize :: "host \<Rightarrow> StorageEntry \<Rightarrow> int" where
  "calculateEntrySize h entry =
     byteLength h (VStr (key entry)) + byteLength h (val entry) + 8
       + (case truthy (ttl entry) of Some t \<Rightarrow> 8 | None \<Rightarrow> 0) + 4"

definition Memtable_set ::
  "host \<Rightarrow> int \<Rightarrow> string \<Rightarrow> jsval \<Rightarrow> int option \<Rightarrow> Memtable \<Rightarrow> Memtable" where
  "Memtable_set h now k v ttl_arg m =
     (let serializedKey = k;
          existingEntry = Map_get (mt_data m) serializedKey;
          size1 = (case existingEntry of
                     Some e \<Rightarrow> sizeBytes m - calculateEntrySize h e
                   | None \<Rightarrow> sizeBytes m);
          entry = \<lparr>key = k, val = v, timestamp = now,
                   ttl = (case truthy ttl_arg of Some t \<Rightarrow> Some (now + t) | None \<Rightarrow> None),
                   version = (case existingEntry of Some e \<Rightarrow> version e | None \<Rightarrow> 0) + 1\<rparr>
      in m\<lparr>mt_data := Map_set (mt_data m) serializedKey entry,
           sizeBytes := size1 + calculateEntrySize h entry\<rparr>)"

definition Memtable_getEntry ::
  "host \<Rightarrow> int \<Rightarrow> string \<Rightarrow> Memtable \<Rightarrow> StorageEntry option \<times> Memtable" where
  "Memtable_getEntry h now k m =
     (let serializedKey = k
      in case Map_get (mt_data m) serializedKey of
           None \<Rightarrow> (None, m)
         | Some entry \<Rightarrow>
             if expired now entry
             then (None, m\<lparr>mt_data := Map_delete (mt_data m) serializedKey,
                            sizeBytes := sizeBytes m - calculateEntrySize h entry\<rparr>)
             else (Some entry, m))"

definition Memtable_get :: "host \<Rightarrow> int \<Rightarrow> string \<Rightarrow> Memtable \<Rightarrow> jsval \<times> Memtable" where
  "Memtable_get h now k m =
     (let serializedKey = k
      in case Map_get (mt_data m) serializedKey of
           None \<Rightarrow> (VNull, m)
         | Some entry \<Rightarrow>
             if expired now entry
             then (VNull, m\<lparr>mt_data := Map_delete (mt_data m) serializedKey,
                             sizeBytes := sizeBytes m - calculateEntrySize h entry\<rparr>)
             else (val entry, m))"

definition Memtable_delete :: "host \<Rightarrow> string \<Rightarrow> Memtable \<Rightarrow> bool \<times> Memtable" where
  "Memtable_delete h k m =
     (let serializedKey = k
      in case Map_get (mt_data m) serializedKey of
           Some entry \<Rightarrow>
             (True, m\<lparr>sizeBytes := sizeBytes m - calculateEntrySize h entry,
                      mt_data := Map_delete (mt_data m) serializedKey\<rparr>)
         | None \<Rightarrow> (False, m))"

definition Memtable_keys :: "int \<Rightarrow> string option \<Rightarrow> Memtable \<Rightarrow> string list option" where
  "Memtable_keys now pattern m =
     (case regex_for patternToRegex pattern of
        None \<Rightarrow> None
      | Some regex \<Rightarrow>
          Some (map key (filter (\<lambda>entry. \<not> expired now entry \<and> val entry \<noteq> VNull
                                   \<and> key_matches regex (key entry)) (map snd (mt_data m)))))"

definition Memtable_clear :: "Memtable \<Rightarrow> Memtable" where
  "Memtable_clear m = m\<lparr>mt_data := [], sizeBytes := 0\<rparr>"

definition Memtable_shouldFlush :: "Memtable \<Rightarrow> bool" where
  "Memtable_shouldFlush m = (sizeBytes m \<ge> maxSizeBytes m)"

definition Memtable_isEmpty :: "Memtable \<Rightarrow> bool" where
  "Memtable_isEmpty m = (Map_size (mt_data m) = 0)"

definition Memtable_getAllEntries :: "host \<Rightarrow> int \<Rightarrow> Memtable \<Rightarrow> StorageEntry list" where
  "Memtable_getAllEntries h now m =
     sort_by (\<lambda>a b. localeCompare h (key a) (key b))
       (filter (\<lambda>entry. \<not> expired now entry) (map snd (mt_data m)))"

text \<open>
  Modelled from the spec: the methods \<open>isFull\<close>, \<open>size\<close>, \<open>getEntries\<close>,
  \<open>getSizeInBytes\<close>, \<open>exists\<close>, \<open>expire\<close> and \<open>ttl\<close> that \<open>StorageEngine\<close> calls on
  its memtable and \<open>Memtable.ts\<close> does not declare. The first four are section 4.1's
  \<open>should_flush\<close>, \<open>entry_count\<close>, \<open>iter_sorted\<close> and \<open>size_bytes\<close>, which the class
  has as \<open>shouldFlush\<close>, \<open>data.size\<close>, \<open>getAllEntries\<close> and \<open>sizeBytes\<close>. \<open>exists\<close> is
  "as GET \<open>\<noteq>\<close> absent"; \<open>expire\<close>: "if a live entry exists, updates its expires_at;
  returns whether it did"; \<open>ttl\<close>: "-2 absent, -1 present without expiry, else
  ceil((expires_at - now) / 1000)", an expired entry being absent and removed on lookup.
\<close>

definition Memtable_isFull :: "Memtable \<Rightarrow> bool" where
  "Memtable_isFull m = Memtable_shouldFlush m"

definition Memtable_size :: "Memtable \<Rightarrow> nat" where
  "Memtable_size m = Map_size (mt_data m)"

definition Memtable_getEntries :: "host \<Rightarrow> int \<Rightarrow> Memtable \<Rightarrow> StorageEntry list" where
  "Memtable_getEntries h now m = Memtable_getAllEntries h now m"

definition Memtable_getSizeInBytes :: "Memtable \<Rightarrow> int" where
  "Memtable_getSizeInBytes m = sizeBytes m"

definition Memtable_exists :: "host \<Rightarrow> int \<Rightarrow> string \<Rightarrow> Memtable \<Rightarrow> bool \<times> Memtable" where
  "Memtable_exists h now k m =
     (case Memtable_get h now k m of (v, m') \<Rightarrow> (v \<noteq> VNull, m'))"

definition Memtable_expire ::
  "host \<Rightarrow> int \<Rightarrow> string \<Rightarrow> int \<Rightarrow> Memtable \<Rightarrow> bool \<times> Memtable" where
  "Memtable_expire h now k t m =
     (case Memtable_getEntry h now k m of
        (None, m') \<Rightarrow> (False, m')
      | (Some entry, m') \<Rightarrow>
          if val entry = VNull then (False, m')
          else (let entry' = entry\<lparr>ttl := Some (now + t)\<rparr>
                in (True, m'\<lparr>mt_data := Map_set (mt_data m') k entry',
                              sizeBytes := sizeBytes m' - calculateEntrySize h entry
                                             + calculateEntrySize h entry'\<rparr>)))"

definition Memtable_ttl :: "host \<Rightarrow> int \<Rightarrow> string \<Rightarrow> Memtable \<Rightarrow> int \<times> Memtable" where
  "Memtable_ttl h now k m =
     (case Memtable_getEntry h now k m of
        (None, m') \<Rightarrow> (- 2, m')
      | (Some entry, m') \<Rightarrow>
          if val entry = VNull then (- 2, m')
          else (case ttl entry of
                  None \<Rightarrow> (- 1, m')
                | Some expires_at \<Rightarrow> (ceil_seconds (expires_at - now), m')))"

text \<open>
  Modelled from the spec: \<open>SSTable.exists\<close>, which \<open>StorageEngine.exists\<close> calls and
  \<open>SSTable.ts\<close> does not declare: "as GET \<open>\<noteq>\<close> absent", a tombstone and an expired
  entry both being absent.
\<close>

definition SSTable_exists :: "host \<Rightarrow> int \<Rightarrow> string \<Rightarrow> SSTable \<Rightarrow> bool" where
  "SSTable_exists h now k t =
     (case SSTable_get h now k t of None \<Rightarrow> False | Some v \<Rightarrow> v \<noteq> VNull)"

section \<open>WAL\<close>

text \<open>
  \<open>class WAL\<close>, in the source after \<open>Memtable\<close>. \<open>append\<close> has one parameter and pushes
  it; \<open>StorageEngine\<close> calls it with the operation name first, and JavaScript drops the
  arguments beyond the parameter list. \<open>flush\<close> writes nothing.
\<close>

type_synonym WAL = "string list"

definition WAL_append :: "WAL \<Rightarrow> string \<Rightarrow> WAL" where
  "WAL_append w entry = w @ [entry]"

definition WAL_clear :: "WAL \<Rightarrow> WAL" where
  "WAL_clear w = []"

section \<open>StorageEngine\<close>

text \<open>
  \<open>class StorageEngine\<close> (the file that imports \<open>./WAL\<close>, \<open>./Memtable\<close> and
  \<open>./SSTable\<close>). It builds a run with \<open>new SSTable(0, entries, enableBloomFilter)\<close> and
  reads \<open>table.entries\<close>, \<open>table.level\<close> and \<open>table.metadata\<close>; the run is the class
  \<open>SSTable\<close> above, the arguments taken by their role. The compaction that a flush
  schedules with \<open>setImmediate\<close> runs after the command has returned and is not part
  of it.
\<close>

record CompactionStats =
  cs_level :: int
  inputFiles :: nat
  outputFiles :: nat
  inputSize :: int
  outputSize :: int
  duration :: int
  entriesCompacted :: nat
  entriesDropped :: int

record StorageEngine =
  wal :: WAL
  memtable :: Memtable
  sstables :: "(nat, SSTable list) jsmap"
  config :: StorageEngineConfig
  compactionInProgress :: bool
  compactionStats :: "CompactionStats list"

definition StorageEngine_new :: "StorageEngineConfig \<Rightarrow> StorageEngine" where
  "StorageEngine_new cfg =
     \<lparr>wal = [], memtable = Memtable_new (maxMemtableSizeMB cfg),
      sstables = foldl (\<lambda>m lvl. Map_set m lvl []) [] [0..<7],
      config = cfg, compactionInProgress = False, compactionStats = []\<rparr>"

text \<open>\<open>this.sstables.get(level) || []\<close>.\<close>

definition tables_at :: "StorageEngine \<Rightarrow> nat \<Rightarrow> SSTable list" where
  "tables_at s lvl = (case Map_get (sstables s) lvl of Some ts \<Rightarrow> ts | None \<Rightarrow> [])"

definition StorageEngine_flushMemtable :: "host \<Rightarrow> int \<Rightarrow> StorageEngine \<Rightarrow> StorageEngine" where
  "StorageEngine_flushMemtable h now s =
     (if Memtable_size (memtable s) = 0 then s
      else (let es = Memtable_getEntries h now (memtable s);
                newSSTable = SSTable_new h now 0 0 es (config s);
                level0Tables = tables_at s 0 @ [newSSTable]
            in s\<lparr>sstables := Map_set (sstables s) 0 level0Tables,
                 memtable := Memtable_clear (memtable s),
                 wal := WAL_clear (wal s)\<rparr>))"

definition StorageEngine_set ::
  "host \<Rightarrow> int \<Rightarrow> string \<Rightarrow> jsval \<Rightarrow> int option \<Rightarrow> StorageEngine \<Rightarrow> StorageEngine" where
  "StorageEngine_set h now k v ttl_arg s =
     (let s1 = s\<lparr>wal := WAL_append (wal s) ''SET''\<rparr>;
          s2 = s1\<lparr>memtable := Memtable_set h now k v ttl_arg (memtable s1)\<rparr>
      in if Memtable_isFull (memtable s2) then StorageEngine_flushMemtable h now s2 else s2)"

text \<open>
  The two nested loops of \<open>get\<close> and \<open>exists\<close> visit the levels 0 to 6 and, in each, the
  tables from the last (newest) to the first.
\<close>

definition probe_order :: "StorageEngine \<Rightarrow> SSTable list" where
  "probe_order s = concat (map (\<lambda>lvl. rev (tables_at s lvl)) [0..<7])"

text \<open>
  \<open>const value = tables[i].get(key); if (value !== null) return value\<close> in the loop of
  \<open>get\<close>, and \<open>return null\<close> after it. \<open>SSTable.get\<close> is declared \<open>async\<close> and is
  not awaited here, so \<open>value\<close> is a promise, which is never \<open>null\<close>: the loop returns
  at the first table it probes, and the engine's own \<open>async get\<close> resolves to what that
  table answers, \<open>undefined\<close> and \<open>null\<close> included.
\<close>

fun first_probe :: "jsval option list \<Rightarrow> jsval option" where
  "first_probe [] = Some VNull"
| "first_probe (v # vs) = v"

definition StorageEngine_get ::
  "host \<Rightarrow> int \<Rightarrow> string \<Rightarrow> StorageEngine \<Rightarrow> jsval option \<times> StorageEngine" where
  "StorageEngine_get h now k s =
     (case Memtable_get h now k (memtable s) of
        (memValue, m') \<Rightarrow>
          (if memValue \<noteq> VNull then Some memValue
           else first_probe (map (SSTable_get h now k) (probe_order s)),
           s\<lparr>memtable := m'\<rparr>))"

definition StorageEngine_del :: "host \<Rightarrow> string \<Rightarrow> StorageEngine \<Rightarrow> bool \<times> StorageEngine" where
  "StorageEngine_del h k s =
     (let s1 = s\<lparr>wal := WAL_append (wal s) ''DEL''\<rparr>
      in case Memtable_delete h k (memtable s1) of
           (r, m') \<Rightarrow> (r, s1\<lparr>memtable := m'\<rparr>))"

definition StorageEngine_exists ::
  "host \<Rightarrow> int \<Rightarrow> string \<Rightarrow> StorageEngine \<Rightarrow> bool \<times> StorageEngine" where
  "StorageEngine_exists h now k s =
     (case Memtable_exists h now k (memtable s) of
        (r, m') \<Rightarrow>
          (r \<or> list_ex (SSTable_exists h now k) (probe_order s), s\<lparr>memtable := m'\<rparr>))"

definition StorageEngine_expire ::
  "host \<Rightarrow> int \<Rightarrow> string \<Rightarrow> int \<Rightarrow> StorageEngine \<Rightarrow> bool \<times> StorageEngine" where
  "StorageEngine_expire h now k t s =
     (let s1 = s\<lparr>wal := WAL_append (wal s) ''EXPIRE''\<rparr>
      in case Memtable_expire h now k t (memtable s1) of
           (r, m') \<Rightarrow> (r, s1\<lparr>memtable := m'\<rparr>))"

definition StorageEngine_ttl ::
  "host \<Rightarrow> int \<Rightarrow> string \<Rightarrow> StorageEngine \<Rightarrow> int \<times> StorageEngine" where
  "StorageEngine_ttl h now k s =
     (case Memtable_ttl h now k (memtable s) of
        (memTtl, m') \<Rightarrow> (if memTtl \<ge> 0 then memTtl else - 1, s\<lparr>memtable := m'\<rparr>))"

text \<open>
  \<open>keys\<close>: the memtable's keys first, then every table of every level; the expression
  for the tables is built inside the loop over the tables, from the pattern with only
  \<open>*\<close> replaced, and \<open>entry.deleted\<close> is a field no entry has. A failure of the
  \<open>RegExp\<close> constructor is caught and rethrown as a \<open>StorageError\<close>.
\<close>

definition all_tables :: "StorageEngine \<Rightarrow> SSTable list" where
  "all_tables s = concat (map (tables_at s) [0..<7])"

definition table_keys :: "piece list option \<Rightarrow> string list \<Rightarrow> SSTable \<Rightarrow> string list" where
  "table_keys regex allKeys t =
     foldl (\<lambda>ks entry. if key_matches regex (key entry) then Set_add ks (key entry) else ks)
       allKeys (entries t)"

definition StorageEngine_keys ::
  "int \<Rightarrow> string option \<Rightarrow> StorageEngine \<Rightarrow> error + string list" where
  "StorageEngine_keys now pattern s =
     (case Memtable_keys now pattern (memtable s) of
        None \<Rightarrow> Inl StorageError
      | Some memKeys \<Rightarrow>
          (let allKeys = foldl Set_add [] memKeys
           in if all_tables s = [] then Inr allKeys
              else case regex_for (\<lambda>p. RegExp (replace_star p)) pattern of
                     None \<Rightarrow> Inl StorageError
                   | Some regex \<Rightarrow> Inr (foldl (table_keys regex) allKeys (all_tables s))))"

definition StorageEngine_flushall :: "StorageEngine \<Rightarrow> StorageEngine" where
  "StorageEngine_flushall s =
     s\<lparr>wal := WAL_clear (wal s), memtable := Memtable_clear (memtable s),
       sstables := foldl (\<lambda>m lvl. Map_set m lvl []) (sstables s) [0..<7],
       compactionStats := []\<rparr>"

text \<open>
  \<open>info\<close>. The guard of the key count is \<open>!entry.value === null\<close>, which JavaScript
  reads as \<open>(!entry.value) === null\<close>. Of a table it reports seven fields; the metadata
  of \<open>SSTable\<close> has no field \<open>entryCount\<close>, so the count it reports is the default
  \<open>0\<close>, and \<open>createdAt\<close> falls back to the clock when it is \<open>0\<close>.
\<close>

record MemtableStats =
  ms_size :: int
  ms_entries :: nat
  oldestEntry :: int
  newestEntry :: int

record StorageStats =
  st_memtable :: MemtableStats
  st_sstables :: "SSTableMetadata list"
  totalSize :: int
  totalEntries :: nat
  st_compactionStats :: "CompactionStats list"

definition info_tables :: "StorageEngine \<Rightarrow> (nat \<times> SSTable) list" where
  "info_tables s = concat (map (\<lambda>lvl. map (\<lambda>t. (lvl, t)) (tables_at s lvl)) [0..<7])"

definition info_count_key :: "string list \<Rightarrow> StorageEntry \<Rightarrow> string list" where
  "info_count_key allKeys entry =
     (if strict_eq (js_not (val entry)) VNull then Set_add allKeys (key entry) else allKeys)"

definition StorageEngine_info :: "int \<Rightarrow> StorageEngine \<Rightarrow> StorageStats" where
  "StorageEngine_info now s =
     (let memtableStats = \<lparr>ms_size = Memtable_getSizeInBytes (memtable s),
                            ms_entries = Memtable_size (memtable s),
                            oldestEntry = now, newestEntry = now\<rparr>;
          allKeys = foldl (\<lambda>ks (lvl, t). foldl info_count_key ks (entries t)) [] (info_tables s)
      in \<lparr>st_memtable = memtableStats,
          st_sstables =
            map (\<lambda>(lvl, t).
                   \<lparr>md_id = table_id t,
                    md_level = (if level t = 0 then lvl else level t),
                    md_minKey = md_minKey (metadata t),
                    md_maxKey = md_maxKey (metadata t),
                    md_size = md_size (metadata t),
                    md_entries = 0,
                    md_createdAt = (if md_createdAt (metadata t) = 0 then now
                                    else md_createdAt (metadata t)),
                    md_bloomFilter = None\<rparr>)
              (info_tables s),
          totalSize = foldl (\<lambda>total (lvl, t). total + md_size (metadata t))
                        (Memtable_getSizeInBytes (memtable s)) (info_tables s),
          totalEntries = length allKeys,
          st_compactionStats = compactionStats s\<rparr>)"

section \<open>CompactionEngine\<close>

text \<open>\<open>class CompactionEngine\<close> of \<open>src/worker/compaction/CompactionEngine.ts\<close>.\<close>

record CompactionResult =
  cr_sstables :: "SSTable list"
  cr_stats :: CompactionStats

text \<open>
  \<open>mergeSSTablesWithOverlap\<close>: the entries of the tables, in the order given, go through
  \<open>keyMap\<close>; an entry replaces the one kept for its key when its timestamp is greater.
\<close>

definition keep_latest ::
  "(string, StorageEntry) jsmap \<Rightarrow> StorageEntry \<Rightarrow> (string, StorageEntry) jsmap" where
  "keep_latest keyMap entry =
     (let keyStr = key entry
      in case Map_get keyMap keyStr of
           None \<Rightarrow> Map_set keyMap keyStr entry
         | Some existing \<Rightarrow>
             if timestamp entry > timestamp existing then Map_set keyMap keyStr entry
             else keyMap)"

definition mergeSSTablesWithOverlap :: "host \<Rightarrow> int \<Rightarrow> SSTable list \<Rightarrow> StorageEntry list" where
  "mergeSSTablesWithOverlap h now tables =
     (let keyMap = foldl (\<lambda>m t. foldl keep_latest m (entries t)) [] tables;
          validEntries = filter (\<lambda>entry. \<not> (val entry = VNull) \<and> \<not> expired now entry)
                           (map snd keyMap)
      in sort_by (\<lambda>a b. localeCompare h (key a) (key b)) validEntries)"

text \<open>
  \<open>mergeSSTables\<close>: \<open>find_min\<close> is the inner \<open>for\<close> loop, which picks the first iterator
  whose current key is the smallest; \<open>None\<close> is \<open>minIndex === -1\<close>. An index beyond the
  end of \<open>indices\<close> reads \<open>undefined\<close> and the iterator is passed over.
\<close>

definition find_min_step ::
  "StorageEntry list list \<Rightarrow> nat list \<Rightarrow> (string \<times> nat \<times> StorageEntry) option \<Rightarrow> nat
     \<Rightarrow> (string \<times> nat \<times> StorageEntry) option" where
  "find_min_step iterators indices acc i =
     (if i < length indices \<and> indices ! i < length (iterators ! i)
      then (let entry = iterators ! i ! (indices ! i); k = key entry
            in case acc of
                 None \<Rightarrow> Some (k, i, entry)
               | Some (minKey, minIndex, minEntry) \<Rightarrow>
                   if k < minKey then Some (k, i, entry) else acc)
      else acc)"

definition find_min ::
  "StorageEntry list list \<Rightarrow> nat list \<Rightarrow> (string \<times> nat \<times> StorageEntry) option" where
  "find_min iterators indices =
     foldl (find_min_step iterators indices) None [0..<length iterators]"

text \<open>The number of entries the iterators have not yet passed.\<close>

definition remaining :: "StorageEntry list list \<Rightarrow> nat list \<Rightarrow> nat" where
  "remaining iterators indices =
     (\<Sum>i<length iterators. if i < length indices then length (iterators ! i) - indices ! i else 0)"

function mergeSSTables_loop ::
  "int \<Rightarrow> StorageEntry list list \<Rightarrow> nat list \<Rightarrow> StorageEntry list \<Rightarrow> StorageEntry list" where
  "mergeSSTables_loop now iterators indices merged =
     (case find_min iterators indices of
        None \<Rightarrow> merged
      | Some (minKey, minIndex, minEntry) \<Rightarrow>
          if val minEntry = VNull \<or> expired now minEntry
          then mergeSSTables_loop now iterators (indices[minIndex := indices ! minIndex + 1]) merged
          else mergeSSTables_loop now iterators (indices[minIndex := indices ! minIndex + 1])
                 (merged @ [minEntry]))"
  by pat_completeness auto
termination
proof -
  have step: "(case find_min_step its idx acc i of
                 None \<Rightarrow> True
               | Some (k, j, e) \<Rightarrow> j < n \<and> j < length idx \<and> idx ! j < length (its ! j))"
    if "case acc of None \<Rightarrow> True
        | Some (k, j, e) \<Rightarrow> j < n \<and> j < length idx \<and> idx ! j < length (its ! j)"
      and "i < n"
    for its :: "StorageEntry list list" and idx acc i n
    using that by (auto simp: find_min_step_def Let_def split: option.splits)
  have fold: "(case foldl (find_min_step its idx) acc js of
                 None \<Rightarrow> True
               | Some (k, j, e) \<Rightarrow> j < n \<and> j < length idx \<and> idx ! j < length (its ! j))"
    if "case acc of None \<Rightarrow> True
        | Some (k, j, e) \<Rightarrow> j < n \<and> j < length idx \<and> idx ! j < length (its ! j)"
      and "\<forall>i \<in> set js. i < n"
    for its :: "StorageEntry list list" and idx acc js n
    using that
  proof (induction js arbitrary: acc)
    case Nil
    then show ?case by simp
  next
    case (Cons i js)
    have "case find_min_step its idx acc i of None \<Rightarrow> True
        | Some (k, j, e) \<Rightarrow> j < n \<and> j < length idx \<and> idx ! j < length (its ! j)"
      using Cons.prems by (intro step) simp_all
    then show ?case using Cons.prems by (simp add: Cons.IH)
  qed
  have valid: "j < length its \<and> j < length idx \<and> idx ! j < length (its ! j)"
    if "find_min its idx = Some (k, j, e)" for its idx k j e
    using fold [where acc = None and n = "length its" and idx = idx and its = its
        and js = "[0..<length its]"] that
    by (simp add: find_min_def)
  have decr: "remaining its (idx[j := Suc (idx ! j)]) < remaining its idx"
    if "j < length its" "j < length idx" "idx ! j < length (its ! j)" for its idx j
    unfolding remaining_def
  proof (rule sum_strict_mono_ex1)
    show "finite {..<length its}" by simp
    show "\<forall>i\<in>{..<length its}.
            (if i < length (idx[j := Suc (idx ! j)])
             then length (its ! i) - idx[j := Suc (idx ! j)] ! i else 0)
            \<le> (if i < length idx then length (its ! i) - idx ! i else 0)"
      using that by (auto simp: nth_list_update)
    show "\<exists>a\<in>{..<length its}.
            (if a < length (idx[j := Suc (idx ! j)])
             then length (its ! a) - idx[j := Suc (idx ! j)] ! a else 0)
            < (if a < length idx then length (its ! a) - idx ! a else 0)"
      using that by (intro bexI [of _ j]) auto
  qed
  show ?thesis
    by (relation "measure (\<lambda>(now, its, idx, merged). remaining its idx)")
       (auto dest!: valid intro: decr)
qed

declare mergeSSTables_loop.simps [simp del]

definition mergeSSTables :: "int \<Rightarrow> SSTable list \<Rightarrow> StorageEntry list" where
  "mergeSSTables now tables =
     (let iterators = map entries tables
      in mergeSSTables_loop now iterators (replicate (length tables) 0) [])"

definition compactLevel0 ::
  "host \<Rightarrow> int \<Rightarrow> StorageEngineConfig \<Rightarrow> SSTable list \<Rightarrow> CompactionResult" where
  "compactLevel0 h now cfg tables =
     (let mergedEntries = mergeSSTablesWithOverlap h now tables;
          newSSTable = SSTable_new h now 0 1 mergedEntries cfg;
          entriesIn = foldl (\<lambda>sum t. sum + md_entries (metadata t)) 0 tables
      in \<lparr>cr_sstables = [newSSTable],
          cr_stats = \<lparr>cs_level = 0, inputFiles = length tables, outputFiles = 1,
                      inputSize = foldl (\<lambda>sum t. sum + md_size (metadata t)) 0 tables,
                      outputSize = md_size (metadata newSSTable), duration = 0,
                      entriesCompacted = entriesIn,
                      entriesDropped = int entriesIn - int (length mergedEntries)\<rparr>\<rparr>)"

definition compactHigherLevel ::
  "host \<Rightarrow> int \<Rightarrow> StorageEngineConfig \<Rightarrow> nat \<Rightarrow> SSTable list \<Rightarrow> CompactionResult" where
  "compactHigherLevel h now cfg lvl tables =
     (let toCompact = take 4 tables;
          compactedSSTables = drop 4 tables
      in if length toCompact \<le> 1
         then \<lparr>cr_sstables = tables,
               cr_stats = \<lparr>cs_level = int lvl, inputFiles = 0, outputFiles = 0, inputSize = 0,
                           outputSize = 0, duration = 0, entriesCompacted = 0,
                           entriesDropped = 0\<rparr>\<rparr>
         else (let mergedEntries = mergeSSTables now toCompact;
                   newSSTable = SSTable_new h now 0 lvl mergedEntries cfg;
                   entriesIn = foldl (\<lambda>sum t. sum + md_entries (metadata t)) 0 toCompact
               in \<lparr>cr_sstables = compactedSSTables @ [newSSTable],
                   cr_stats = \<lparr>cs_level = int lvl, inputFiles = length toCompact, outputFiles = 1,
                               inputSize = foldl (\<lambda>sum t. sum + md_size (metadata t)) 0 toCompact,
                               outputSize = md_size (metadata newSSTable), duration = 0,
                               entriesCompacted = entriesIn,
                               entriesDropped = int entriesIn - int (length mergedEntries)\<rparr>\<rparr>))"

definition compactLevel ::
  "host \<Rightarrow> int \<Rightarrow> StorageEngineConfig \<Rightarrow> nat \<Rightarrow> SSTable list \<Rightarrow> CompactionResult" where
  "compactLevel h now cfg lvl tables =
     (let sorted = sort_by (\<lambda>a b. md_createdAt (metadata a) - md_createdAt (metadata b)) tables
      in if lvl = 0 then compactLevel0 h now cfg sorted
         else compactHigherLevel h now cfg lvl sorted)"

definition groupByLevel :: "SSTable list \<Rightarrow> (nat, SSTable list) jsmap" where
  "groupByLevel tables =
     foldl (\<lambda>levels t. Map_set levels (level t)
                          ((case Map_get levels (level t) of Some ts \<Rightarrow> ts | None \<Rightarrow> []) @ [t]))
       [] tables"

text \<open>
  \<open>compact\<close> returns the new tables with the overall statistics; the second component
  is the statistics it appends to \<open>this.compactionStats\<close>.
\<close>

definition CompactionEngine_compact ::
  "host \<Rightarrow> int \<Rightarrow> StorageEngineConfig \<Rightarrow> SSTable list \<Rightarrow> CompactionResult \<times> CompactionStats list"
  where
  "CompactionEngine_compact h now cfg tables =
     (let levels = groupByLevel tables;
          step = (\<lambda>(newSSTables, stats) (lvl, ts).
                    if length ts \<le> 1 then (newSSTables @ ts, stats)
                    else (let compacted = compactLevel h now cfg lvl ts
                          in (newSSTables @ cr_sstables compacted, stats @ [cr_stats compacted])));
          (newSSTables, stats) = foldl step ([], []) levels
      in (\<lparr>cr_sstables = newSSTables,
           cr_stats = \<lparr>cs_level = - 1, inputFiles = length tables,
                       outputFiles = length newSSTables,
                       inputSize = foldl (\<lambda>sum t. sum + md_size (metadata t)) 0 tables,
                       outputSize = foldl (\<lambda>sum t. sum + md_size (metadata t)) 0 newSSTables,
                       duration = 0,
                       entriesCompacted = foldl (\<lambda>sum t. sum + md_entries (metadata t)) 0 tables,
                       entriesDropped = 0\<rparr>\<rparr>, stats))"

section \<open>WorkerThread\<close>

text \<open>
  \<open>WorkerThread.executeCommand\<close>, in the source after \<open>CompactionEngine\<close>. The command
  is the string of the request; the arguments are the bag \<open>args\<close>, a field that is not
  there being \<open>None\<close>. \<open>!args.key\<close> holds for a missing key and for the empty string.
\<close>

record CommandArgs =
  a_key :: "string option"
  a_value :: "jsval option"
  a_ttl :: "int option"
  a_pattern :: "string option"
  a_amount :: "int option"

datatype result =
    RUndefined
  | RValue "jsval option"
  | RBool bool
  | RNum int
  | RKeys "string list"
  | RInfo StorageStats

text \<open>\<open>args.key\<close> when it is truthy.\<close>

definition truthy_key :: "string option \<Rightarrow> string option" where
  "truthy_key k = (case k of None \<Rightarrow> None | Some s \<Rightarrow> if s = [] then None else Some s)"

text \<open>\<open>typeof current === 'number' ? current : 0\<close>.\<close>

definition number_or_zero :: "jsval option \<Rightarrow> int" where
  "number_or_zero current = (case current of Some (VNum n) \<Rightarrow> n | _ \<Rightarrow> 0)"

definition executeCommand ::
  "host \<Rightarrow> int \<Rightarrow> string \<Rightarrow> CommandArgs \<Rightarrow> StorageEngine \<Rightarrow> (error + result) \<times> StorageEngine"
  where
  "executeCommand h now command args s =
     (if command = ''SET'' then
        (case (truthy_key (a_key args), a_value args) of
           (Some k, Some v) \<Rightarrow> (Inr RUndefined, StorageEngine_set h now k v (a_ttl args) s)
         | _ \<Rightarrow> (Inl ValidationError, s))
      else if command = ''GET'' then
        (case truthy_key (a_key args) of
           None \<Rightarrow> (Inl ValidationError, s)
         | Some k \<Rightarrow> (case StorageEngine_get h now k s of (v, s') \<Rightarrow> (Inr (RValue v), s')))
      else if command = ''DEL'' then
        (case truthy_key (a_key args) of
           None \<Rightarrow> (Inl ValidationError, s)
         | Some k \<Rightarrow> (case StorageEngine_del h k s of (r, s') \<Rightarrow> (Inr (RBool r), s')))
      else if command = ''EXISTS'' then
        (case truthy_key (a_key args) of
           None \<Rightarrow> (Inl ValidationError, s)
         | Some k \<Rightarrow> (case StorageEngine_exists h now k s of (r, s') \<Rightarrow> (Inr (RBool r), s')))
      else if command = ''EXPIRE'' then
        (case (truthy_key (a_key args), truthy (a_ttl args)) of
           (Some k, Some t) \<Rightarrow>
             (case StorageEngine_expire h now k t s of (r, s') \<Rightarrow> (Inr (RBool r), s'))
         | _ \<Rightarrow> (Inl ValidationError, s))
      else if command = ''TTL'' then
        (case truthy_key (a_key args) of
           None \<Rightarrow> (Inl ValidationError, s)
         | Some k \<Rightarrow> (case StorageEngine_ttl h now k s of (n, s') \<Rightarrow> (Inr (RNum n), s')))
      else if command = ''INCR'' then
        (case truthy_key (a_key args) of
           None \<Rightarrow> (Inl ValidationError, s)
         | Some k \<Rightarrow>
             (case StorageEngine_get h now k s of
                (current, s') \<Rightarrow>
                  (let newValue = number_or_zero current
                                    + (case truthy (a_amount args) of Some n \<Rightarrow> n | None \<Rightarrow> 1)
                   in (Inr (RNum newValue), StorageEngine_set h now k (VNum newValue) None s'))))
      else if command = ''DECR'' then
        (case truthy_key (a_key args) of
           None \<Rightarrow> (Inl ValidationError, s)
         | Some k \<Rightarrow>
             (case StorageEngine_get h now k s of
                (current, s') \<Rightarrow>
                  (let newValue = number_or_zero current
                                    - (case truthy (a_amount args) of Some n \<Rightarrow> n | None \<Rightarrow> 1)
                   in (Inr (RNum newValue), StorageEngine_set h now k (VNum newValue) None s'))))
      else if command = ''KEYS'' then
        (case StorageEngine_keys now (a_pattern args) s of
           Inl e \<Rightarrow> (Inl e, s)
         | Inr ks \<Rightarrow> (Inr (RKeys ks), s))
      else if command = ''FLUSHALL'' then (Inr RUndefined, StorageEngine_flushall s)
      else if command = ''INFO'' then (Inr (RInfo (StorageEngine_info now s)), s)
      else (Inl ValidationError, s))"

section \<open>SimpleStorage\<close>

text \<open>\<open>class SimpleStorage\<close> of \<open>src/simple-storage/SimpleStorage.ts\<close>.\<close>

record SimpleStorage =
  data :: "(string, StorageEntry) jsmap"
  ttlData :: "(string, int) jsmap"

definition SimpleStorage_new :: SimpleStorage where
  "SimpleStorage_new = \<lparr>data = [], ttlData = []\<rparr>"

definition SimpleStorage_set ::
  "int \<Rightarrow> string \<Rightarrow> jsval \<Rightarrow> int option \<Rightarrow> SimpleStorage \<Rightarrow> SimpleStorage" where
  "SimpleStorage_set now k v ttl_arg s =
     (let keyStr = k;
          entry = \<lparr>key = k, val = v, timestamp = now,
                   ttl = (case truthy ttl_arg of Some t \<Rightarrow> Some (now + t) | None \<Rightarrow> None),
                   version = (case Map_get (data s) keyStr of
                                Some e \<Rightarrow> (if version e = 0 then 0 else version e)
                              | None \<Rightarrow> 0) + 1\<rparr>;
          s1 = s\<lparr>data := Map_set (data s) keyStr entry\<rparr>
      in case truthy ttl_arg of
           Some t \<Rightarrow> s1\<lparr>ttlData := Map_set (ttlData s1) keyStr (now + t)\<rparr>
         | None \<Rightarrow> s1)"

text \<open>The removal of an expired key that \<open>get\<close>, \<open>exists\<close>, \<open>ttl\<close>, \<open>keys\<close> and \<open>info\<close> share.\<close>

definition SimpleStorage_drop :: "string \<Rightarrow> SimpleStorage \<Rightarrow> SimpleStorage" where
  "SimpleStorage_drop keyStr s =
     s\<lparr>data := Map_delete (data s) keyStr, ttlData := Map_delete (ttlData s) keyStr\<rparr>"

definition SimpleStorage_get :: "int \<Rightarrow> string \<Rightarrow> SimpleStorage \<Rightarrow> jsval \<times> SimpleStorage" where
  "SimpleStorage_get now k s =
     (let keyStr = k;
          found = (case Map_get (data s) keyStr of Some e \<Rightarrow> val e | None \<Rightarrow> VNull)
      in case Map_get (ttlData s) keyStr of
           Some expiry \<Rightarrow>
             if now > expiry then (VNull, SimpleStorage_drop keyStr s) else (found, s)
         | None \<Rightarrow> (found, s))"

definition SimpleStorage_del :: "string \<Rightarrow> SimpleStorage \<Rightarrow> bool \<times> SimpleStorage" where
  "SimpleStorage_del k s =
     (let keyStr = k;
          s1 = s\<lparr>ttlData := Map_delete (ttlData s) keyStr\<rparr>
      in (Map_has (data s1) keyStr, s1\<lparr>data := Map_delete (data s1) keyStr\<rparr>))"

definition SimpleStorage_exists :: "int \<Rightarrow> string \<Rightarrow> SimpleStorage \<Rightarrow> bool \<times> SimpleStorage" where
  "SimpleStorage_exists now k s =
     (let keyStr = k
      in case Map_get (ttlData s) keyStr of
           Some expiry \<Rightarrow>
             if now > expiry then (False, SimpleStorage_drop keyStr s)
             else (Map_has (data s) keyStr, s)
         | None \<Rightarrow> (Map_has (data s) keyStr, s))"

definition SimpleStorage_expire ::
  "int \<Rightarrow> string \<Rightarrow> int \<Rightarrow> SimpleStorage \<Rightarrow> bool \<times> SimpleStorage" where
  "SimpleStorage_expire now k t s =
     (let keyStr = k
      in if \<not> Map_has (data s) keyStr then (False, s)
         else (True, s\<lparr>ttlData := Map_set (ttlData s) keyStr (now + t)\<rparr>))"

definition SimpleStorage_ttl :: "int \<Rightarrow> string \<Rightarrow> SimpleStorage \<Rightarrow> int \<times> SimpleStorage" where
  "SimpleStorage_ttl now k s =
     (let keyStr = k
      in if \<not> Map_has (data s) keyStr then (- 2, s)
         else case Map_get (ttlData s) keyStr of
                None \<Rightarrow> (- 1, s)
              | Some expiry \<Rightarrow>
                  (let remaining = expiry - now
                   in if remaining \<le> 0 then (- 2, SimpleStorage_drop keyStr s)
                      else (ceil_seconds remaining, s)))"

text \<open>
  \<open>keys\<close> builds its expression from the pattern with \<open>*\<close> and \<open>?\<close> replaced and nothing
  else, and walks \<open>data\<close>, dropping the keys it finds expired. \<open>None\<close> is the exception
  of the \<open>RegExp\<close> constructor.
\<close>

definition SimpleStorage_keys_step ::
  "int \<Rightarrow> piece list option \<Rightarrow> string list \<times> SimpleStorage \<Rightarrow> string \<times> StorageEntry
     \<Rightarrow> string list \<times> SimpleStorage" where
  "SimpleStorage_keys_step now regex acc p =
     (case (acc, p) of
        ((result, s), (keyStr, entry)) \<Rightarrow>
          if (case Map_get (ttlData s) keyStr of Some expiry \<Rightarrow> now > expiry | None \<Rightarrow> False)
          then (result, SimpleStorage_drop keyStr s)
          else if key_matches regex keyStr then (result @ [key entry], s)
          else (result, s))"

definition SimpleStorage_keys ::
  "int \<Rightarrow> string option \<Rightarrow> SimpleStorage \<Rightarrow> (string list \<times> SimpleStorage) option" where
  "SimpleStorage_keys now pattern s =
     (case regex_for (\<lambda>p. RegExp (replace_question (replace_star p))) pattern of
        None \<Rightarrow> None
      | Some regex \<Rightarrow> Some (foldl (SimpleStorage_keys_step now regex) ([], s) (data s)))"

text \<open>
  \<open>info\<close> drops the expired keys and reports \<open>data.size\<close>; this store has neither runs
  nor compaction. The byte estimate needs the length of \<open>JSON.stringify(value)\<close>, a
  parameter.
\<close>

definition SimpleStorage_info_step ::
  "int \<Rightarrow> int \<times> int \<times> SimpleStorage \<Rightarrow> string \<times> StorageEntry \<Rightarrow> int \<times> int \<times> SimpleStorage"
  where
  "SimpleStorage_info_step now acc p =
     (case (acc, p) of
        ((oldest, newest, s), (keyStr, entry)) \<Rightarrow>
          if (case Map_get (ttlData s) keyStr of Some expiry \<Rightarrow> now > expiry | None \<Rightarrow> False)
          then (oldest, newest, SimpleStorage_drop keyStr s)
          else (if timestamp entry < oldest then timestamp entry else oldest,
                if timestamp entry > newest then timestamp entry else newest, s))"

definition SimpleStorage_getSizeInBytes :: "(jsval \<Rightarrow> int) \<Rightarrow> SimpleStorage \<Rightarrow> int" where
  "SimpleStorage_getSizeInBytes stringifyLength s =
     foldl (\<lambda>totalSize (keyStr, entry).
              totalSize + int (length keyStr) * 2 + stringifyLength (val entry) * 2 + 32)
       0 (data s)"

definition SimpleStorage_info ::
  "(jsval \<Rightarrow> int) \<Rightarrow> int \<Rightarrow> SimpleStorage \<Rightarrow> StorageStats \<times> SimpleStorage" where
  "SimpleStorage_info stringifyLength now s =
     (case foldl (SimpleStorage_info_step now) (now, 0, s) (data s) of
        (oldest, newest, s') \<Rightarrow>
          (\<lparr>st_memtable = \<lparr>ms_size = SimpleStorage_getSizeInBytes stringifyLength s',
                            ms_entries = Map_size (data s'),
                            oldestEntry = (if Map_size (data s') > 0 then oldest else now),
                            newestEntry = (if Map_size (data s') > 0 then newest else now)\<rparr>,
            st_sstables = [],
            totalSize = SimpleStorage_getSizeInBytes stringifyLength s',
            totalEntries = Map_size (data s'),
            st_compactionStats = []\<rparr>, s'))"

section \<open>SimpleSnapDB\<close>


definition SimpleSnapDB_get ::
  "int \<Rightarrow> string \<Rightarrow> SimpleStorage \<Rightarrow> (error + jsval) \<times> SimpleStorage" where
  "SimpleSnapDB_get now k s = (case SimpleStorage_get now k s of (v, s') \<Rightarrow> (Inr v, s'))"

definition SimpleSnapDB_expire ::
  "int \<Rightarrow> string \<Rightarrow> int \<Rightarrow> SimpleStorage \<Rightarrow> (error + bool) \<times> SimpleStorage" where
  "SimpleSnapDB_expire now k t s =
     (if t \<le> 0 then (Inl ValidationError, s)
      else case SimpleStorage_expire now k t s of (r, s') \<Rightarrow> (Inr r, s'))"

section \<open>Definitions for the proofs\<close>

text \<open>
  What one character of a pattern becomes in \<open>patternToRegex\<close>: in the source text of
  the expression, as tokens and as pieces.
\<close>

definition glob_source :: "char \<Rightarrow> string" where
  "glob_source c =
     (if c \<in> set ''.+^${}()|[]'' \<or> c = backslash then [backslash, c]
      else if c = CHR ''*'' then ''.*''
      else if c = CHR ''?'' then ''.''
      else [c])"

definition glob_tokens :: "char \<Rightarrow> token list" where
  "glob_tokens c =
     (if c = CHR ''*'' then [TDot, TStar] else if c = CHR ''?'' then [TDot] else [TChar c])"

definition glob_pieces :: "char \<Rightarrow> piece list" where
  "glob_pieces c =
     (if c = CHR ''*'' then [Star AnyChar]
      else if c = CHR ''?'' then [Once AnyChar]
      else [Once (Lit c)])"

text \<open>The entry kept for a key after the entries \<open>xs\<close> have gone through \<open>keep_latest\<close>.\<close>

definition latest_step :: "string \<Rightarrow> StorageEntry option \<Rightarrow> StorageEntry \<Rightarrow> StorageEntry option" where
  "latest_step k acc e =
     (if key e = k
      then (case acc of None \<Rightarrow> Some e
            | Some existing \<Rightarrow> if timestamp e > timestamp existing then Some e else acc)
      else acc)"

section \<open>A host and a configuration for the examples\<close>

text \<open>
  Sizes counted in characters, the identity as the serializer of keys, and the comparison
  of strings by character codes for \<open>localeCompare\<close>; the configuration is the default
  one of the client.
\<close>

definition example_host :: host where
  "example_host =
     \<lparr>byteLength = (\<lambda>v. case v of VStr s \<Rightarrow> int (length s) + 2 | _ \<Rightarrow> 4),
      entryByteLength = (\<lambda>e. int (length (key e)) + 32),
      serializeKey = (\<lambda>k. k),
      localeCompare = (\<lambda>a b. if a < b then - 1 else if a = b then 0 else 1)\<rparr>"

definition example_config :: StorageEngineConfig where
  "example_config =
     \<lparr>maxMemtableSizeMB = 64, compactionIntervalMs = 60000, enableBloomFilter = True\<rparr>"

section \<open>Properties of the map operations\<close>

lemma map_of_Map_set: "map_of (Map_set m k v) k' = (if k' = k then Some v else map_of m k')"
  by (induction m k v rule: Map_set.induct) auto

lemma map_of_Map_delete: "map_of (Map_delete m k) k' = (if k' = k then None else map_of m k')"
  unfolding Map_delete_def by (induction m) auto

section \<open>The bloom filter has no false negatives\<close>

lemma mask_test: "((w :: 8 word) AND push_bit n 1 \<noteq> 0) = bit w n"
proof
  assume a: "w AND push_bit n 1 \<noteq> 0"
  have "\<exists>i. bit (w AND push_bit n 1) i"
  proof (rule ccontr)
    assume "\<not> (\<exists>i. bit (w AND push_bit n 1) i)"
    hence "w AND push_bit n 1 = 0" by (intro bit_eqI) simp
    with a show False by simp
  qed
  then obtain i where "bit (w AND push_bit n 1) i" ..
  thus "bit w n" by (auto simp: bit_and_iff bit_exp_iff)
next
  assume b: "bit w n"
  hence "n < 8" using bit_imp_le_length [of w n] by simp
  with b have "bit (w AND push_bit n 1) n" by (simp add: bit_and_iff bit_exp_iff)
  thus "w AND push_bit n 1 \<noteq> 0" by auto
qed

lemma length_set_bit_at [simp]: "length (set_bit_at bs p) = length bs"
  by (auto simp: set_bit_at_def split: option.splits)

lemma test_after_set:
  "b < length bs \<Longrightarrow> i < 8 \<Longrightarrow> test_bit_at (set_bit_at bs (Some (b, i))) (Some (b, i))"
  by (simp add: test_bit_at_def set_bit_at_def mask_test bit_or_iff bit_push_bit_iff
      del: push_bit_of_1)

lemma test_mono: "test_bit_at bs p \<Longrightarrow> test_bit_at (set_bit_at bs q) p"
  by (auto simp: test_bit_at_def set_bit_at_def mask_test bit_or_iff nth_list_update
      simp del: push_bit_of_1 split: option.splits)

lemma foldl_set_bit_at_mono:
  "test_bit_at bs p \<Longrightarrow> test_bit_at (foldl set_bit_at bs ps) p"
  by (induction ps arbitrary: bs) (simp_all add: test_mono)

lemma length_foldl_set_bit_at [simp]: "length (foldl set_bit_at bs ps) = length bs"
  by (induction ps arbitrary: bs) simp_all

lemma foldl_set_bit_at_sets:
  assumes "p \<in> set ps" and "p = Some (b, i)" and "b < length bs" and "i < 8"
  shows "test_bit_at (foldl set_bit_at bs ps) p"
  using assms
proof (induction ps arbitrary: bs)
  case Nil
  then show ?case by simp
next
  case (Cons q ps)
  show ?case
  proof (cases "q = p")
    case True
    with Cons.prems have "test_bit_at (set_bit_at bs q) p"
      by (simp add: test_after_set)
    then show ?thesis by (simp add: foldl_set_bit_at_mono)
  next
    case False
    with Cons.prems have "p \<in> set ps" by simp
    moreover have "b < length (set_bit_at bs q)" using Cons.prems by simp
    ultimately show ?thesis using Cons.IH Cons.prems by simp
  qed
qed

lemma bit_position_in_range:
  assumes "0 < m" and "length bs = (m + 7) div 8"
  shows "\<exists>b i. bit_position m h = Some (b, i) \<and> b < length bs \<and> i < 8"
proof -
  have "nat (h mod int m) < m" using assms(1) by (simp add: nat_less_iff)
  then have "nat (h mod int m) div 8 < (m + 7) div 8" by arith
  with assms show ?thesis by (simp add: bit_position_def Let_def)
qed

lemma BloomFilter_add_wf: "BloomFilter_wf f \<Longrightarrow> BloomFilter_wf (BloomFilter_add f k)"
  by (simp add: BloomFilter_wf_def BloomFilter_add_def)

lemma getHashes_add [simp]: "getHashes (BloomFilter_add f k') k = getHashes f k"
  by (simp add: getHashes_def BloomFilter_add_def)

lemma BloomFilter_contains_add_same:
  assumes "BloomFilter_wf f"
  shows "BloomFilter_contains (BloomFilter_add f k) k"
proof -
  have "test_bit_at (foldl set_bit_at (bits f) (map (bit_position (bsize f)) (getHashes f k))) p"
    if "p \<in> set (map (bit_position (bsize f)) (getHashes f k))" for p
  proof -
    from that obtain h where "p = bit_position (bsize f) h" by auto
    with assms obtain b i where "p = Some (b, i)" "b < length (bits f)" "i < 8"
      using bit_position_in_range [of "bsize f" "bits f" h] by (auto simp: BloomFilter_wf_def)
    with that show ?thesis by (rule_tac foldl_set_bit_at_sets) auto
  qed
  then show ?thesis
    by (simp add: BloomFilter_contains_def BloomFilter_add_def list_all_iff getHashes_def)
qed

lemma BloomFilter_contains_add_mono:
  "BloomFilter_contains f k \<Longrightarrow> BloomFilter_contains (BloomFilter_add f k') k"
  unfolding BloomFilter_contains_def getHashes_add
  by (simp add: BloomFilter_add_def list_all_iff foldl_set_bit_at_mono)

lemma BloomFilter_contains_foldl_mono:
  "BloomFilter_contains f k \<Longrightarrow> BloomFilter_contains (foldl BloomFilter_add f ks) k"
  by (induction ks arbitrary: f) (simp_all add: BloomFilter_contains_add_mono)

lemma BloomFilter_foldl_add_contains:
  "BloomFilter_wf f \<Longrightarrow> k \<in> set ks \<Longrightarrow> BloomFilter_contains (foldl BloomFilter_add f ks) k"
proof (induction ks arbitrary: f)
  case Nil
  then show ?case by simp
next
  case (Cons k' ks)
  show ?case
  proof (cases "k' = k")
    case True
    with Cons.prems show ?thesis
      by (simp add: BloomFilter_contains_foldl_mono BloomFilter_contains_add_same)
  next
    case False
    with Cons show ?thesis by (simp add: BloomFilter_add_wf)
  qed
qed

lemma BloomFilter_new_wf: "0 < m \<Longrightarrow> BloomFilter_wf (BloomFilter_new m n)"
  by (simp add: BloomFilter_wf_def BloomFilter_new_def)

text \<open>
  C9. For a filter of \<open>m > 0\<close> bits, as the constructor of a run builds it
  (\<open>m = 10 \<sqdot> n\<close> for \<open>n > 0\<close> entries), every key of a sequence of keys added to the
  filter is accepted by \<open>contains\<close> afterwards; so a key that \<open>contains\<close> rejects was
  never added.
\<close>

theorem C9_no_false_negatives:
  assumes "0 < m" and "k \<in> set ks"
  shows "BloomFilter_contains (foldl BloomFilter_add (BloomFilter_new m n) ks) k"
  using assms by (simp add: BloomFilter_foldl_add_contains BloomFilter_new_wf)

theorem C9_no_false_negatives_witness:
  "(0::nat) < 10 \<and> ''b'' \<in> set [''a'', ''b'', ''c'']
   \<and> BloomFilter_contains (foldl BloomFilter_add (BloomFilter_new 10 3) [''a'', ''b'', ''c'']) ''b''"
  using C9_no_false_negatives [of 10 "''b''" "[''a'', ''b'', ''c'']" 3] by simp




section \<open>A delete writes no tombstone\<close>



lemma set_flushes_at_threshold_zero:
  assumes "maxMemtableSizeMB cfg = 0" and "0 \<le> byteLength h (VStr k) + byteLength h v"
  shows "StorageEngine_set h t0 k v None (StorageEngine_new cfg)
         = (StorageEngine_new cfg)\<lparr>sstables :=
              Map_set (sstables (StorageEngine_new cfg)) 0
                [SSTable_new h t0 0 0
                   [\<lparr>key = k, val = v, timestamp = t0, ttl = None, version = 1\<rparr>] cfg]\<rparr>"
  using assms
  by (simp add: StorageEngine_set_def StorageEngine_flushMemtable_def StorageEngine_new_def
      Memtable_new_def Memtable_set_def Memtable_isFull_def Memtable_shouldFlush_def
      Memtable_size_def Memtable_getEntries_def Memtable_getAllEntries_def Memtable_clear_def
      calculateEntrySize_def truthy_def expired_def Map_get_def Map_size_def sort_by_def
      tables_at_def WAL_append_def WAL_clear_def Let_def upt_rec)


section \<open>TTL\<close>


text \<open>
  \<open>SimpleStorage.ttl\<close>, the store behind the exported class, does return \<open>-2\<close> for an
  absent or expired key, \<open>-1\<close> for a key without expiry and the positive ceiling otherwise.
\<close>

lemma ceil_seconds_eq: "ceil_seconds r = \<lceil>real_of_int r / 1000\<rceil>"
  using ceiling_divide_eq_div [of r 1000, where ?'a = real] by (simp add: ceil_seconds_def)

lemma SimpleStorage_ttl_spec:
  "fst (SimpleStorage_ttl now k s) =
     (if \<not> Map_has (data s) k then - 2
      else case Map_get (ttlData s) k of
             None \<Rightarrow> - 1
           | Some expires_at \<Rightarrow>
               if expires_at - now \<le> 0 then - 2
               else \<lceil>real_of_int (expires_at - now) / 1000\<rceil>)"
  by (simp add: SimpleStorage_ttl_def Let_def ceil_seconds_eq split: option.splits
      del: of_int_diff)

lemma SimpleStorage_ttl_positive:
  assumes "Map_has (data s) k" and "Map_get (ttlData s) k = Some expires_at" and "now < expires_at"
  shows "0 < fst (SimpleStorage_ttl now k s)"
  using assms by (simp add: SimpleStorage_ttl_def Let_def ceil_seconds_def)

section \<open>INFO\<close>



lemma SimpleStorage_info_totalEntries:
  "totalEntries (fst (SimpleStorage_info stringifyLength now s))
     = Map_size (data (snd (SimpleStorage_info stringifyLength now s)))"
  by (simp add: SimpleStorage_info_def split: prod.splits)


section \<open>Compaction keeps the latest timestamp\<close>

lemma set_insert_by [simp]: "set (insert_by cmp x ys) = insert x (set ys)"
  by (induction ys) auto

lemma set_sort_by [simp]: "set (sort_by cmp xs) = set xs"
  unfolding sort_by_def by (induction xs) auto

lemma distinct_map_insert_by:
  "distinct (map f (insert_by cmp x ys)) = (f x \<notin> f ` set ys \<and> distinct (map f ys))"
  by (induction ys) auto

lemma distinct_map_sort_by [simp]: "distinct (map f (sort_by cmp xs)) = distinct (map f xs)"
  unfolding sort_by_def
  by (induction xs) (simp_all add: distinct_map_insert_by sort_by_def [symmetric])

lemma map_fst_Map_set:
  "map fst (Map_set m k v) = (if k \<in> fst ` set m then map fst m else map fst m @ [k])"
  by (induction m k v rule: Map_set.induct) auto

lemma distinct_Map_set: "distinct (map fst m) \<Longrightarrow> distinct (map fst (Map_set m k v))"
  by (simp add: map_fst_Map_set)

lemma set_Map_set_subset: "set (Map_set m k v) \<subseteq> insert (k, v) (set m)"
  by (induction m k v rule: Map_set.induct) auto

lemma map_of_keep_latest:
  "map_of (keep_latest m e) k = latest_step k (map_of m k) e"
  by (auto simp: keep_latest_def latest_step_def Let_def Map_get_def map_of_Map_set
      split: option.splits)

lemma map_of_foldl_keep_latest:
  "map_of (foldl keep_latest m xs) k = foldl (latest_step k) (map_of m k) xs"
  by (induction xs arbitrary: m) (simp_all add: map_of_keep_latest)

lemma distinct_keep_latest:
  "distinct (map fst m) \<Longrightarrow> distinct (map fst (keep_latest m e))"
  by (auto simp: keep_latest_def Let_def distinct_Map_set split: option.splits)

lemma distinct_foldl_keep_latest:
  "distinct (map fst m) \<Longrightarrow> distinct (map fst (foldl keep_latest m xs))"
  by (induction xs arbitrary: m) (simp_all add: distinct_keep_latest)

lemma keyed_keep_latest:
  "\<forall>p \<in> set m. key (snd p) = fst p \<Longrightarrow> \<forall>p \<in> set (keep_latest m e). key (snd p) = fst p"
  using set_Map_set_subset [of m "key e" e]
  by (auto simp: keep_latest_def Let_def split: option.splits)

lemma keyed_foldl_keep_latest:
  "\<forall>p \<in> set m. key (snd p) = fst p \<Longrightarrow> \<forall>p \<in> set (foldl keep_latest m xs). key (snd p) = fst p"
proof (induction xs arbitrary: m)
  case Nil
  then show ?case by simp
next
  case (Cons x xs)
  show ?case
    using Cons.IH [OF keyed_keep_latest [OF Cons.prems, of x]] by simp
qed

lemma foldl_latest_step_None:
  "foldl (latest_step k) acc xs = None \<Longrightarrow> \<forall>e' \<in> set xs. key e' \<noteq> k"
proof (induction xs arbitrary: acc rule: rev_induct)
  case Nil
  then show ?case by simp
next
  case (snoc x xs)
  from snoc.prems have l: "latest_step k (foldl (latest_step k) acc xs) x = None" by simp
  then have "key x \<noteq> k" "foldl (latest_step k) acc xs = None"
    unfolding latest_step_def by (auto split: if_splits option.splits)
  with snoc.IH show ?case by auto
qed

lemma foldl_latest_step_first_max:
  assumes "foldl (latest_step k) None xs = Some e"
  shows "\<exists>ys zs. xs = ys @ e # zs \<and> key e = k
           \<and> (\<forall>e' \<in> set ys. key e' = k \<longrightarrow> timestamp e' < timestamp e)
           \<and> (\<forall>e' \<in> set zs. key e' = k \<longrightarrow> timestamp e' \<le> timestamp e)"
  using assms
proof (induction xs arbitrary: e rule: rev_induct)
  case Nil
  then show ?case by simp
next
  case (snoc x xs)
  from snoc.prems have l: "latest_step k (foldl (latest_step k) None xs) x = Some e" by simp
  show ?case
  proof (cases "foldl (latest_step k) None xs")
    case None
    then have no: "\<forall>e' \<in> set xs. key e' \<noteq> k" by (rule foldl_latest_step_None)
    from l None have "latest_step k None x = Some e" by simp
    then have "key x = k" "e = x"
      unfolding latest_step_def by (auto split: if_splits)
    with no show ?thesis
      by (intro exI [of _ xs] exI [of _ "[]"]) auto
  next
    case (Some ex)
    from snoc.IH [OF Some] obtain ys zs where
      xs: "xs = ys @ ex # zs" "key ex = k"
      "\<forall>e' \<in> set ys. key e' = k \<longrightarrow> timestamp e' < timestamp ex"
      "\<forall>e' \<in> set zs. key e' = k \<longrightarrow> timestamp e' \<le> timestamp ex"
      by blast
    from l Some have l': "latest_step k (Some ex) x = Some e" by simp
    show ?thesis
    proof (cases "key x = k \<and> timestamp x > timestamp ex")
      case True
      with l' have ex: "e = x" unfolding latest_step_def by simp
      have "\<forall>e' \<in> set xs. key e' = k \<longrightarrow> timestamp e' < timestamp x"
      proof (intro ballI impI)
        fix e' assume "e' \<in> set xs" "key e' = k"
        with xs have "timestamp e' \<le> timestamp ex" by auto
        with True show "timestamp e' < timestamp x" by simp
      qed
      with True ex show ?thesis
        by (intro exI [of _ xs] exI [of _ "[]"]) simp
    next
      case False
      with l' have ex: "e = ex" unfolding latest_step_def by (auto split: if_splits)
      from False have "key x = k \<longrightarrow> timestamp x \<le> timestamp ex" by auto
      with xs ex show ?thesis
        by (intro exI [of _ ys] exI [of _ "zs @ [x]"]) simp
    qed
  qed
qed

lemma foldl_concat_entries:
  "foldl (\<lambda>m t. foldl f m (entries t)) m tables = foldl f m (concat (map entries tables))"
  by (induction tables arbitrary: m) simp_all

lemma mergeSSTablesWithOverlap_set:
  "set (mergeSSTablesWithOverlap h now tables)
     = {e \<in> snd ` set (foldl keep_latest [] (concat (map entries tables))).
          val e \<noteq> VNull \<and> \<not> expired now e}"
  by (auto simp: mergeSSTablesWithOverlap_def Let_def foldl_concat_entries)

lemma entries_SSTable_new [simp]: "entries (SSTable_new h now index lvl es cfg) = es"
  by (simp add: SSTable_new_def Let_def)

lemma level_SSTable_new [simp]: "level (SSTable_new h now index lvl es cfg) = lvl"
  by (simp add: SSTable_new_def Let_def)

text \<open>
  C4. In the output of \<open>mergeSSTablesWithOverlap\<close> no key occurs twice, and every
  entry of the output is an entry of the input runs (read in the order given) that no
  other input entry for its key exceeds in timestamp; among the input entries for its key
  with that timestamp it is the first. The version of an entry is never compared.
\<close>

theorem C4_latest_timestamp_first_seen:
  "distinct (map key (mergeSSTablesWithOverlap h now tables))
   \<and> (\<forall>e \<in> set (mergeSSTablesWithOverlap h now tables).
        \<exists>ys zs. concat (map entries tables) = ys @ e # zs
          \<and> (\<forall>e' \<in> set ys. key e' = key e \<longrightarrow> timestamp e' < timestamp e)
          \<and> (\<forall>e' \<in> set zs. key e' = key e \<longrightarrow> timestamp e' \<le> timestamp e))"
proof
  let ?xs = "concat (map entries tables)"
  let ?m = "foldl keep_latest [] ?xs"
  have d: "distinct (map fst ?m)" by (simp add: distinct_foldl_keep_latest)
  have kd: "\<forall>p \<in> set ?m. key (snd p) = fst p" by (rule keyed_foldl_keep_latest) simp
  then have eq: "map key (map snd ?m) = map fst ?m"
    unfolding map_map by (intro map_cong) simp_all
  have "distinct (map key (map snd ?m))" unfolding eq by (rule d)
  then have "distinct (map key (filter (\<lambda>entry. \<not> (val entry = VNull) \<and> \<not> expired now entry)
                                  (map snd ?m)))"
    by (simp add: distinct_map_filter)
  then show "distinct (map key (mergeSSTablesWithOverlap h now tables))"
    by (simp add: mergeSSTablesWithOverlap_def Let_def foldl_concat_entries)
  show "\<forall>e \<in> set (mergeSSTablesWithOverlap h now tables).
        \<exists>ys zs. ?xs = ys @ e # zs
          \<and> (\<forall>e' \<in> set ys. key e' = key e \<longrightarrow> timestamp e' < timestamp e)
          \<and> (\<forall>e' \<in> set zs. key e' = key e \<longrightarrow> timestamp e' \<le> timestamp e)"
  proof
    fix e assume "e \<in> set (mergeSSTablesWithOverlap h now tables)"
    then obtain k where p: "(k, e) \<in> set ?m"
      by (auto simp: mergeSSTablesWithOverlap_set)
    with kd have "k = key e" by auto
    with p d have "map_of ?m (key e) = Some e" by simp
    then have "foldl (latest_step (key e)) None ?xs = Some e"
      by (simp add: map_of_foldl_keep_latest)
    from foldl_latest_step_first_max [OF this]
    show "\<exists>ys zs. ?xs = ys @ e # zs
          \<and> (\<forall>e' \<in> set ys. key e' = key e \<longrightarrow> timestamp e' < timestamp e)
          \<and> (\<forall>e' \<in> set zs. key e' = key e \<longrightarrow> timestamp e' \<le> timestamp e)"
      by blast
  qed
qed

theorem C4_latest_timestamp_first_seen_witness:
  "mergeSSTablesWithOverlap example_host 200
     [SSTable_new example_host 100 0 0
        [\<lparr>key = ''k'', val = VStr ''old'', timestamp = 100, ttl = None, version = 3\<rparr>]
        example_config,
      SSTable_new example_host 150 0 0
        [\<lparr>key = ''k'', val = VStr ''new'', timestamp = 150, ttl = None, version = 1\<rparr>]
        example_config]
     = [\<lparr>key = ''k'', val = VStr ''new'', timestamp = 150, ttl = None, version = 1\<rparr>]
   \<and> distinct (map key (mergeSSTablesWithOverlap example_host 200
     [SSTable_new example_host 100 0 0
        [\<lparr>key = ''k'', val = VStr ''old'', timestamp = 100, ttl = None, version = 3\<rparr>]
        example_config,
      SSTable_new example_host 150 0 0
        [\<lparr>key = ''k'', val = VStr ''new'', timestamp = 150, ttl = None, version = 1\<rparr>]
        example_config]))
   \<and> timestamp \<lparr>key = ''k'', val = VStr ''old'', timestamp = 100, ttl = None, version = 3\<rparr>
       < timestamp \<lparr>key = ''k'', val = VStr ''new'', timestamp = 150, ttl = None, version = 1\<rparr>"
proof -
  let ?old = "\<lparr>key = ''k'', val = VStr ''old'', timestamp = 100, ttl = None, version = 3\<rparr>"
  let ?new = "\<lparr>key = ''k'', val = VStr ''new'', timestamp = 150, ttl = None, version = 1\<rparr>"
  let ?ts = "[SSTable_new example_host 100 0 0 [?old] example_config,
              SSTable_new example_host 150 0 0 [?new] example_config]"
  have m: "mergeSSTablesWithOverlap example_host 200 ?ts = [?new]"
    by (simp add: mergeSSTablesWithOverlap_def keep_latest_def Map_get_def expired_def
        truthy_def sort_by_def Let_def)
  have d: "distinct (map key (mergeSSTablesWithOverlap example_host 200 ?ts))"
    using C4_latest_timestamp_first_seen [of example_host 200 ?ts] by (rule conjunct1)
  from m d show ?thesis by simp
qed

text \<open>
  The claim as the specification states it fails on a tie: of two entries for one key
  with the same timestamp, the merge keeps the one it meets first, here the one with
  the smaller version.
\<close>

theorem C4_tie_keeps_smaller_version:
  "mergeSSTablesWithOverlap example_host 200
     [SSTable_new example_host 100 0 0
        [\<lparr>key = ''k'', val = VStr ''a'', timestamp = 100, ttl = None, version = 1\<rparr>]
        example_config,
      SSTable_new example_host 100 1 0
        [\<lparr>key = ''k'', val = VStr ''b'', timestamp = 100, ttl = None, version = 2\<rparr>]
        example_config]
   = [\<lparr>key = ''k'', val = VStr ''a'', timestamp = 100, ttl = None, version = 1\<rparr>]"
  by (simp add: mergeSSTablesWithOverlap_def keep_latest_def Map_get_def expired_def
      truthy_def sort_by_def Let_def)

section \<open>Compaction drops every tombstone\<close>







section \<open>Key patterns\<close>

lemma replace_star_append [simp]: "replace_star (a @ b) = replace_star a @ replace_star b"
  by (simp add: replace_star_def)

lemma replace_question_append [simp]:
  "replace_question (a @ b) = replace_question a @ replace_question b"
  by (simp add: replace_question_def)

lemma translate_Cons:
  "replace_question (replace_star (escape_special (c # p)))
     = glob_source c @ replace_question (replace_star (escape_special p))"
proof -
  have "escape_special (c # p)
          = (if c \<in> set ''.+^${}()|[]'' \<or> c = backslash then [backslash, c] else [c])
            @ escape_special p"
    by (simp add: escape_special_def)
  then show ?thesis
    by (auto simp: glob_source_def replace_star_def replace_question_def backslash_def)
qed

lemma glob_star [simp]:
  "glob_tokens (CHR ''*'') = [TDot, TStar]" "glob_pieces (CHR ''*'') = [Star AnyChar]"
  by (simp_all add: glob_tokens_def glob_pieces_def)

lemma glob_question [simp]:
  "glob_tokens (CHR ''?'') = [TDot]" "glob_pieces (CHR ''?'') = [Once AnyChar]"
  by (simp_all add: glob_tokens_def glob_pieces_def)

lemma glob_plain:
  "c \<noteq> CHR ''*'' \<Longrightarrow> c \<noteq> CHR ''?'' \<Longrightarrow> glob_tokens c = [TChar c]"
  "c \<noteq> CHR ''*'' \<Longrightarrow> c \<noteq> CHR ''?'' \<Longrightarrow> glob_pieces c = [Once (Lit c)]"
  by (simp_all add: glob_tokens_def glob_pieces_def)

lemma tokenize_plain:
  "c \<noteq> backslash \<Longrightarrow> token_of c = Some t \<Longrightarrow> tokenize (c # cs) = map_option (Cons t) (tokenize cs)"
  by (cases cs) (simp_all add: option.map_comp comp_def)

lemma tokenize_escaped:
  "syntax_char d \<Longrightarrow> tokenize (backslash # d # cs) = map_option (Cons (TChar d)) (tokenize cs)"
  by simp

lemma tokenize_glob_source:
  "tokenize (glob_source c @ rest) = map_option (\<lambda>ts. glob_tokens c @ ts) (tokenize rest)"
proof -
  consider (esc) "c \<in> set ''.+^${}()|[]'' \<or> c = backslash"
    | (star) "c = CHR ''*''" | (question) "c = CHR ''?''"
    | (plain) "\<not> (c \<in> set ''.+^${}()|[]'' \<or> c = backslash)" "c \<noteq> CHR ''*''" "c \<noteq> CHR ''?''"
    by blast
  then show ?thesis
  proof cases
    case esc
    then have s: "syntax_char c" by (auto simp: syntax_char_def)
    from esc have g: "glob_source c = [backslash, c]" "glob_tokens c = [TChar c]"
      unfolding glob_source_def glob_tokens_def by (auto simp: backslash_def)
    show ?thesis unfolding g using tokenize_escaped [OF s, of rest] by simp
  next
    case star
    have "tokenize (CHR ''.'' # CHR ''*'' # rest) = map_option (\<lambda>ts. TDot # TStar # ts) (tokenize rest)"
      using tokenize_plain [of "CHR ''.''" TDot "CHR ''*'' # rest"]
        tokenize_plain [of "CHR ''*''" TStar rest]
      by (simp add: token_of_def backslash_def option.map_comp comp_def)
    moreover have "glob_source (CHR ''*'') = ''.*''"
      unfolding glob_source_def by (simp add: backslash_def)
    ultimately show ?thesis using star by simp
  next
    case question
    have "tokenize (CHR ''.'' # rest) = map_option (Cons TDot) (tokenize rest)"
      using tokenize_plain [of "CHR ''.''" TDot rest] by (simp add: token_of_def backslash_def)
    moreover have "glob_source (CHR ''?'') = ''.''"
      unfolding glob_source_def by (simp add: backslash_def)
    ultimately show ?thesis using question by simp
  next
    case plain
    then have t: "token_of c = Some (TChar c)" "c \<noteq> backslash"
      by (auto simp: token_of_def)
    from plain have g: "glob_source c = [c]" "glob_tokens c = [TChar c]"
      unfolding glob_source_def glob_tokens_def by auto
    show ?thesis unfolding g using tokenize_plain [OF t(2) t(1), of rest] by simp
  qed
qed

lemma tokenize_translate:
  "tokenize (replace_question (replace_star (escape_special p)) @ rest)
     = map_option (\<lambda>ts. concat (map glob_tokens p) @ ts) (tokenize rest)"
proof (induction p)
  case Nil
  show ?case
    by (simp add: escape_special_def replace_star_def replace_question_def option.map_ident)
next
  case (Cons c p)
  show ?case
    unfolding translate_Cons append_assoc tokenize_glob_source Cons.IH
    by (simp add: option.map_comp comp_def)
qed

lemma tokenize_anchored:
  "tokenize (CHR ''^'' # replace_question (replace_star (escape_special p)) @ ''$'')
     = Some (TBol # concat (map glob_tokens p) @ [TEol])"
proof -
  have e: "tokenize ''$'' = Some [TEol]" by (simp add: token_of_def backslash_def)
  have "tokenize (CHR ''^'' # (replace_question (replace_star (escape_special p)) @ ''$''))
          = map_option (Cons TBol)
              (tokenize (replace_question (replace_star (escape_special p)) @ ''$''))"
    by (rule tokenize_plain) (simp_all add: token_of_def backslash_def)
  then show ?thesis unfolding tokenize_translate e by simp
qed

lemma pieces_once:
  "atom_of t = Some a \<Longrightarrow> rest \<noteq> [] \<Longrightarrow> hd rest \<noteq> TStar
     \<Longrightarrow> pieces (t # rest) = map_option (Cons (Once a)) (pieces rest)"
  by (cases rest) simp_all

lemma glob_tokens_head:
  "concat (map glob_tokens p) @ [TEol] \<noteq> [] \<and> hd (concat (map glob_tokens p) @ [TEol]) \<noteq> TStar"
proof (cases p)
  case Nil
  then show ?thesis by simp
next
  case (Cons c p')
  have "glob_tokens c \<noteq> [] \<and> hd (glob_tokens c) \<noteq> TStar"
    unfolding glob_tokens_def by simp
  with Cons show ?thesis by (cases "glob_tokens c") simp_all
qed

lemma pieces_glob_tokens:
  "pieces (concat (map glob_tokens p) @ [TEol]) = Some (concat (map glob_pieces p) @ [Once Eol])"
proof (induction p)
  case Nil
  show ?case by simp
next
  case (Cons c p)
  let ?rest = "concat (map glob_tokens p) @ [TEol]"
  have h: "?rest \<noteq> []" "hd ?rest \<noteq> TStar" using glob_tokens_head [of p] by simp_all
  consider (star) "c = CHR ''*''" | (question) "c = CHR ''?''"
    | (plain) "c \<noteq> CHR ''*''" "c \<noteq> CHR ''?''" by blast
  then show ?case
  proof cases
    case star
    then show ?thesis using Cons.IH by simp
  next
    case question
    have "pieces (TDot # ?rest) = map_option (Cons (Once AnyChar)) (pieces ?rest)"
      using h by (intro pieces_once) simp_all
    with question Cons.IH show ?thesis by simp
  next
    case plain
    have "pieces (TChar c # ?rest) = map_option (Cons (Once (Lit c))) (pieces ?rest)"
      using h by (intro pieces_once) simp_all
    with plain Cons.IH show ?thesis by (simp add: glob_plain)
  qed
qed

lemma patternToRegex_pieces:
  "patternToRegex p = Some (Once Bol # concat (map glob_pieces p) @ [Once Eol])"
proof -
  let ?rest = "concat (map glob_tokens p) @ [TEol]"
  have "pieces (TBol # ?rest) = map_option (Cons (Once Bol)) (pieces ?rest)"
    using glob_tokens_head [of p] by (intro pieces_once) simp_all
  then show ?thesis
    by (simp add: patternToRegex_def RegExp_def tokenize_anchored pieces_glob_tokens)
qed

lemma test_from_Bol_later: "test_from (Once Bol # r) False s = False"
  by (induction s) simp_all

lemma RegExp_test_Bol: "RegExp_test (Once Bol # r) s = match_here r True s"
  by (cases s) (simp_all add: RegExp_test_def test_from_Bol_later)

lemma match_here_glob:
  "match_here (concat (map glob_pieces p) @ [Once Eol]) at_start k = glob_match p k"
proof (induction p k arbitrary: at_start rule: glob_match.induct)
  case (1 k)
  show ?case by simp
next
  case (2 c p)
  show ?case
  proof (cases "c = CHR ''*''")
    case True
    with "2.IH" show ?thesis by simp
  next
    case False
    then have "glob_pieces c = [Once AnyChar] \<or> glob_pieces c = [Once (Lit c)]"
      unfolding glob_pieces_def by simp
    with False show ?thesis by auto
  qed
next
  case (3 c p x xs)
  show ?case
  proof (cases "c = CHR ''*''")
    case True
    from "3.IH"(1) [OF True, of at_start] "3.IH"(2) [OF True, of False] True
    show ?thesis by simp
  next
    case False
    show ?thesis
    proof (cases "c = CHR ''?''")
      case True
      from "3.IH"(3) [OF False True, of False] False True
      show ?thesis by simp
    next
      case q: False
      from "3.IH"(4) [OF False q, of False] False q
      show ?thesis by (auto simp: glob_plain)
    qed
  qed
qed

text \<open>
  \<open>Memtable.patternToRegex\<close> (and the copy in \<open>SSTable\<close>) builds the anchored matcher
  of section 4.7 for every pattern, and a pattern without \<open>*\<close> and \<open>?\<close> matches its
  own text only.
\<close>

lemma patternToRegex_glob_match:
  "\<exists>r. patternToRegex p = Some r \<and> RegExp_test r k = glob_match p k"
  by (simp add: patternToRegex_pieces RegExp_test_Bol match_here_glob)

lemma glob_match_literal:
  "\<forall>c \<in> set p. c \<noteq> CHR ''*'' \<and> c \<noteq> CHR ''?'' \<Longrightarrow> glob_match p k = (k = p)"
  by (induction p k rule: glob_match.induct) auto

text \<open>
  C5. \<open>SimpleStorage.keys\<close>, the \<open>KEYS\<close> of the exported store, builds its expression
  without the anchors and without escaping: the pattern \<open>user\<close>, which has no
  metacharacter, selects the key \<open>user:1\<close>, which the anchored matcher of the
  specification rejects and which \<open>Memtable.keys\<close> does not return for the same pattern.
\<close>

theorem C5_keys_matches_substring:
  "map_option fst (SimpleStorage_keys 1000 (Some ''user'')
      (SimpleStorage_set 900 ''user:1'' (VStr ''John'') None SimpleStorage_new))
     = Some [''user:1'']
   \<and> \<not> glob_match ''user'' ''user:1''
   \<and> Memtable_keys 1000 (Some ''user'')
        (Memtable_set example_host 900 ''user:1'' (VStr ''John'') None (Memtable_new 64))
     = Some []"
proof -
  have 1: "map_option fst (SimpleStorage_keys 1000 (Some ''user'')
      (SimpleStorage_set 900 ''user:1'' (VStr ''John'') None SimpleStorage_new))
     = Some [''user:1'']"
    by (simp add: SimpleStorage_keys_def SimpleStorage_keys_step_def SimpleStorage_set_def
        SimpleStorage_new_def regex_for_def RegExp_def replace_star_def replace_question_def
        token_of_def backslash_def key_matches_def RegExp_test_def Map_get_def truthy_def
        Let_def)
  have 2: "\<not> glob_match ''user'' ''user:1''" by simp
  have 3: "Memtable_keys 1000 (Some ''user'')
        (Memtable_set example_host 900 ''user:1'' (VStr ''John'') None (Memtable_new 64))
     = Some []"
    by (simp add: Memtable_keys_def Memtable_set_def Memtable_new_def regex_for_def
        patternToRegex_pieces glob_plain key_matches_def RegExp_test_Bol Map_get_def
        truthy_def expired_def Let_def)
  from 1 2 3 show ?thesis by (intro conjI)
qed

section \<open>Validation\<close>



text \<open>
  A command that the worker rejects with a validation error leaves the engine as it
  was, and the exported \<open>expire\<close> rejects a TTL that is not positive before it touches
  the store.
\<close>

lemma executeCommand_validation_no_effect:
  "fst (executeCommand h now command args s) = Inl ValidationError
   \<Longrightarrow> snd (executeCommand h now command args s) = s"
  unfolding executeCommand_def
  by (simp split: if_splits option.splits prod.splits sum.splits add: Let_def)

lemma executeCommand_rejects:
  "truthy_key (a_key args) = None \<Longrightarrow> command \<in> {''SET'', ''GET'', ''DEL'', ''EXISTS'', ''EXPIRE'',
       ''TTL'', ''INCR'', ''DECR''}
     \<Longrightarrow> executeCommand h now command args s = (Inl ValidationError, s)"
  "a_value args = None \<Longrightarrow> executeCommand h now ''SET'' args s = (Inl ValidationError, s)"
  "truthy (a_ttl args) = None \<Longrightarrow> executeCommand h now ''EXPIRE'' args s = (Inl ValidationError, s)"
  "command \<notin> {''SET'', ''GET'', ''DEL'', ''EXISTS'', ''EXPIRE'', ''TTL'', ''INCR'', ''DECR'',
       ''KEYS'', ''FLUSHALL'', ''INFO''}
     \<Longrightarrow> executeCommand h now command args s = (Inl ValidationError, s)"
  by (auto simp: executeCommand_def split: option.splits)

lemma SimpleSnapDB_expire_rejects:
  "t \<le> 0 \<Longrightarrow> SimpleSnapDB_expire now k t s = (Inl ValidationError, s)"
  by (simp add: SimpleSnapDB_expire_def)


section \<open>An overwrite without a TTL keeps the earlier expiry\<close>

text \<open>
  C10. In the exported store, a key written by \<open>set\<close> with a (truthy) TTL at time \<open>t0\<close>
  and overwritten by \<open>set\<close> with no TTL at time \<open>t1\<close> still carries the expiry
  \<open>t0 + ttl\<close> in \<open>ttlData\<close>; a \<open>get\<close> at any time after that expiry returns \<open>null\<close> and
  removes the newer value from \<open>data\<close>, although it was written without a TTL.
\<close>

theorem C10_overwrite_keeps_expiry:
  assumes "t \<noteq> 0" and "t0 + t < now"
  shows "Map_get (ttlData (SimpleStorage_set t1 k v' None
                             (SimpleStorage_set t0 k v (Some t) s))) k = Some (t0 + t)
       \<and> fst (SimpleStorage_get now k
                (SimpleStorage_set t1 k v' None (SimpleStorage_set t0 k v (Some t) s))) = VNull
       \<and> Map_get (data (snd (SimpleStorage_get now k
                (SimpleStorage_set t1 k v' None (SimpleStorage_set t0 k v (Some t) s))))) k = None"
  using assms
  by (simp add: SimpleStorage_set_def SimpleStorage_get_def SimpleStorage_drop_def truthy_def
      Map_get_def Let_def map_of_Map_set map_of_Map_delete)

theorem C10_overwrite_keeps_expiry_witness:
  "(100::int) \<noteq> 0 \<and> (1000::int) + 100 < 1200
   \<and> Map_get (ttlData (SimpleStorage_set 1050 ''k'' (VStr ''new'') None
        (SimpleStorage_set 1000 ''k'' (VStr ''old'') (Some 100) SimpleStorage_new))) ''k''
       = Some 1100
   \<and> fst (SimpleStorage_get 1200 ''k'' (SimpleStorage_set 1050 ''k'' (VStr ''new'') None
        (SimpleStorage_set 1000 ''k'' (VStr ''old'') (Some 100) SimpleStorage_new))) = VNull
   \<and> fst (SimpleStorage_get 1060 ''k'' (SimpleStorage_set 1050 ''k'' (VStr ''new'') None
        (SimpleStorage_set 1000 ''k'' (VStr ''old'') (Some 100) SimpleStorage_new)))
       = VStr ''new''"
  using C10_overwrite_keeps_expiry [of 100 1000 1200 1050 "''k''" "VStr ''new''" "VStr ''old''"
      SimpleStorage_new]
  by (simp add: SimpleStorage_set_def SimpleStorage_get_def SimpleStorage_new_def truthy_def
      Map_get_def Let_def)

end
